theory Spec2Isabelle
  imports Complex_Main "HOL-Library.Monad_Syntax"
begin

section \<open>Batched low-order-refined assembly (fem/lor\_assembly.cpp)\<close>

text \<open>
  The embedding follows \<^verbatim>\<open>fem/lor_assembly.cpp\<close> function by function.

  \<^item> A C++ \<^verbatim>\<open>double\<close> is a value of a type \<open>'a\<close> of which only the operations the
    code applies are required (\<open>0\<close>, \<open>1\<close>, \<open>+\<close>, \<open>-\<close>, \<open>*\<close>, \<open>/\<close>): the definitions fix the
    order of the operations as the source writes them and use no law of arithmetic.
    A theorem that needs a law (commutativity, the field laws) says so in its statement
    or in its type; concrete evaluations are done at type \<open>real\<close>.
  \<^item> A C++ \<^verbatim>\<open>int\<close> is an \<open>int\<close>; the values that occur are array indices and loop
    counters, far from the bounds of the machine type. The source holds a few of them in
    a \<^verbatim>\<open>double\<close> (\<^verbatim>\<open>kx_begin\<close>, \<^verbatim>\<open>k\<close>) and converts back; the conversion is exact
    on these values and is not modelled.
  \<^item> An array is a list. An access outside the array (undefined behaviour in a release
    build, an abort in a debug build) is the value \<open>None\<close>, and so is the read of a
    slot of a freshly allocated buffer that was never written.
  \<^item> A loop \<^verbatim>\<open>for (int i = lo; i < hi; ++i)\<close> is \<open>for_loop (irange lo hi)\<close> over the state
    its body changes.
\<close>

subsection \<open>Arrays and loops\<close>

definition rd :: "'a list \<Rightarrow> int \<Rightarrow> 'a option" where
  "rd xs i = (if 0 \<le> i \<and> i < int (length xs) then Some (xs ! nat i) else None)"

definition wr :: "'a list \<Rightarrow> int \<Rightarrow> 'a \<Rightarrow> 'a list option" where
  "wr xs i v = (if 0 \<le> i \<and> i < int (length xs) then Some (xs[nat i := v]) else None)"

text \<open>A buffer allocated without initialisation: every slot is \<open>None\<close> until written.\<close>

definition alloc :: "int \<Rightarrow> 'a option list" where
  "alloc n = replicate (nat n) None"

definition ld :: "'a option list \<Rightarrow> int \<Rightarrow> 'a option" where
  "ld buf i = (case rd buf i of Some (Some v) \<Rightarrow> Some v | _ \<Rightarrow> None)"

definition st :: "'a option list \<Rightarrow> int \<Rightarrow> 'a \<Rightarrow> 'a option list option" where
  "st buf i v = wr buf i (Some v)"

primrec for_loop :: "int list \<Rightarrow> (int \<Rightarrow> 's \<Rightarrow> 's option) \<Rightarrow> 's \<Rightarrow> 's option" where
  "for_loop [] body s = Some s"
| "for_loop (i # rest) body s =
     (case body i s of None \<Rightarrow> None | Some s' \<Rightarrow> for_loop rest body s')"

definition irange :: "int \<Rightarrow> int \<Rightarrow> int list" where
  "irange lo hi = [lo..hi - 1]"

text \<open>
  Modelled from the spec: the four-index view \<^verbatim>\<open>Reshape(ptr, n0, n1, n2, n3)\<close> of
  \<^verbatim>\<open>linalg/dtensor.hpp\<close>, which is not among the sources: a reinterpretation of flat
  storage, the first index running fastest. \<open>ind4 n0 n1 n2 i0 i1 i2 i3\<close> is the flat
  position of entry \<open>(i0, i1, i2, i3)\<close>.
\<close>

definition ind4 :: "int \<Rightarrow> int \<Rightarrow> int \<Rightarrow> int \<Rightarrow> int \<Rightarrow> int \<Rightarrow> int \<Rightarrow> int" where
  "ind4 n0 n1 n2 i0 i1 i2 i3 = i0 + n0 * (i1 + n1 * (i2 + n2 * i3))"

subsection \<open>The collaborators: mesh, space, quadrature rule, sparse matrix\<close>

text \<open>
  The classes \<^verbatim>\<open>Mesh\<close>, \<^verbatim>\<open>FiniteElementSpace\<close>, \<^verbatim>\<open>BilinearForm\<close> and \<^verbatim>\<open>IntegrationRule\<close>
  are declared outside this file. A record holds what the calls of the source return:
  the field is named after the call.
\<close>

record Embedding =
  parent :: int
  matrix :: int

record 'a IntegrationPoint =
  ip_x :: 'a
  ip_y :: 'a
  ip_z :: 'a
  weight :: 'a

record 'a Mesh =
  GetNE :: int
  Dimension :: int
  embeddings :: "Embedding list"
  geom_J :: "'a list"
  GetElementVertices :: "int list list"
  GetVertex :: "('a \<times> 'a \<times> 'a) list"

record 'a FiniteElementSpace =
  GetMesh :: "'a Mesh"
  UsesTensorBasis :: bool
  GetMaxElementOrder :: int
  GetTrueVSize :: int
  GetElementDofs :: "int list list"
  GetLexicographicOrdering :: "int list"

record 'a BilinearForm =
  FESpace :: "'a FiniteElementSpace"

text \<open>
  Modelled from the spec: the class \<^verbatim>\<open>SparseMatrix\<close> (\<^verbatim>\<open>linalg/sparsemat.cpp\<close>, not among
  the sources). The spec's contract: the matrix is created empty; \<^verbatim>\<open>Add\<close> accumulates
  by summation into the entry \<open>(row, col)\<close>; elimination of a dof \<open>i\<close> with the policy
  "keep diagonal" zeroes every off-diagonal entry of row \<open>i\<close> and of column \<open>i\<close> and
  keeps the entry \<open>(i, i)\<close>; \<^verbatim>\<open>Finalize\<close> compresses the stored entries into a canonical
  structure and changes no value. The stored entries are a map from \<open>(row, col)\<close>; an
  entry that is not stored reads as zero.
\<close>

record 'a SparseMatrix =
  height :: int
  width :: int
  entries :: "int \<times> int \<rightharpoonup> 'a"
  finalized :: bool

datatype DiagonalPolicy = DIAG_KEEP

definition SparseMatrix_new :: "int \<Rightarrow> int \<Rightarrow> 'a SparseMatrix" where
  "SparseMatrix_new h w = \<lparr>height = h, width = w, entries = Map.empty, finalized = False\<rparr>"

definition Elem :: "'a::zero SparseMatrix \<Rightarrow> int \<Rightarrow> int \<Rightarrow> 'a" where
  "Elem A i j = (case entries A (i, j) of None \<Rightarrow> 0 | Some v \<Rightarrow> v)"

definition Add :: "int \<Rightarrow> int \<Rightarrow> 'a::{zero,plus} \<Rightarrow> 'a SparseMatrix \<Rightarrow> 'a SparseMatrix" where
  "Add i j val A = A\<lparr>entries := (entries A)((i, j) \<mapsto> Elem A i j + val)\<rparr>"

definition EliminateRowCol :: "int \<Rightarrow> DiagonalPolicy \<Rightarrow> 'a::zero SparseMatrix \<Rightarrow> 'a SparseMatrix" where
  "EliminateRowCol rc dpolicy A =
     A\<lparr>entries := (\<lambda>(i, j). if (i = rc \<or> j = rc) \<and> i \<noteq> j
                             then map_option (\<lambda>_. 0) (entries A (i, j))
                             else entries A (i, j))\<rparr>"

definition Finalize :: "'a SparseMatrix \<Rightarrow> 'a SparseMatrix" where
  "Finalize A = A\<lparr>finalized := True\<rparr>"

subsection \<open>Assemble2DBatchedLOR\<close>

text \<open>Lines 81-91: the metric terms of one quadrature point, from its Jacobian.\<close>

definition metric2D ::
  "'a::{plus,minus,uminus,times,inverse} \<Rightarrow> 'a \<Rightarrow> 'a \<Rightarrow> 'a \<Rightarrow> 'a \<Rightarrow> 'a \<times> 'a \<times> 'a" where
  "metric2D wq J11 J21 J12 J22 =
     (let w_detJ = wq / ((J11 * J22) - (J21 * J12))
      in (w_detJ * (J12 * J12 + J22 * J22),
          (- w_detJ) * (J12 * J11 + J22 * J21),
          w_detJ * (J11 * J11 + J21 * J21)))"

text \<open>Lines 67-92: the body of the loop over the quadrature points of one fine cell.\<close>

definition geom2D_point ::
  "'a::{plus,minus,uminus,times,inverse} IntegrationPoint list \<Rightarrow> 'a list \<Rightarrow> int \<Rightarrow> int \<Rightarrow> int
     \<Rightarrow> int \<Rightarrow> int \<Rightarrow> int \<Rightarrow> int \<Rightarrow> 'a option list \<Rightarrow> 'a option list option" where
  "geom2D_point ir J nq dimn nsub iel_lor iel_ho iref iq invJ = do {
     J11 \<leftarrow> rd J (ind4 nq dimn dimn iq 0 0 iel_lor);
     J21 \<leftarrow> rd J (ind4 nq dimn dimn iq 1 0 iel_lor);
     J12 \<leftarrow> rd J (ind4 nq dimn dimn iq 0 1 iel_lor);
     J22 \<leftarrow> rd J (ind4 nq dimn dimn iq 1 1 iel_lor);
     ip \<leftarrow> rd ir iq;
     let (m0, m1, m2) = metric2D (weight ip) J11 J21 J12 J22;
     invJ \<leftarrow> st invJ (ind4 ((dimn * (dimn + 1)) div 2) nq nsub 0 iq iref iel_ho) m0;
     invJ \<leftarrow> st invJ (ind4 ((dimn * (dimn + 1)) div 2) nq nsub 1 iq iref iel_ho) m1;
     st invJ (ind4 ((dimn * (dimn + 1)) div 2) nq nsub 2 iq iref iel_ho) m2
   }"

text \<open>Lines 51-93: the loop over the fine cells.\<close>

definition geom2D_cell ::
  "'a::{plus,minus,uminus,times,inverse} IntegrationPoint list \<Rightarrow> 'a Mesh \<Rightarrow> int \<Rightarrow> int \<Rightarrow> int
     \<Rightarrow> int \<Rightarrow> 'a option list \<Rightarrow> 'a option list option" where
  "geom2D_cell ir mesh_lor nq dimn nsub iel_lor invJ = do {
     e \<leftarrow> rd (embeddings mesh_lor) iel_lor;
     let iel_ho = parent e;
     let iref = matrix e;
     for_loop (irange 0 nq)
       (geom2D_point ir (geom_J mesh_lor) nq dimn nsub iel_lor iel_ho iref) invJ
   }"

text \<open>Lines 24-93: allocation of the buffer and the loop that fills it.\<close>

definition geom2D ::
  "int \<Rightarrow> 'a::{plus,minus,uminus,times,inverse} IntegrationPoint list \<Rightarrow> 'a Mesh \<Rightarrow> 'a Mesh
     \<Rightarrow> 'a option list option" where
  "geom2D order ir mesh_lor mesh_ho =
     (let nel_ho = GetNE mesh_ho;
          dimn = Dimension mesh_ho;
          nq = int (length ir);
          nsub = order ^ nat dimn;
          invJ_data = alloc ((nel_ho * nsub * nq * (dimn * (dimn + 1))) div 2)
      in for_loop (irange 0 (GetNE mesh_lor)) (geom2D_cell ir mesh_lor nq dimn nsub) invJ_data)"

text \<open>Line 49, and lines 154-155 and 160-161: the irange of sub-cells of a node pair.\<close>

definition btab :: "'a::{zero,one} list" where
  "btab = [0, 1, 1, 0]"

definition k_begin :: "int \<Rightarrow> int \<Rightarrow> int" where
  "k_begin i j = max (max (i - 1) 0) (j - 1)"

definition k_end :: "int \<Rightarrow> int \<Rightarrow> int \<Rightarrow> int" where
  "k_end order i j = min (min i (order - 1)) j + 1"

text \<open>Lines 175-191: the body of the loops over the four quadrature points of a sub-cell.\<close>

definition quad2D ::
  "int \<Rightarrow> int \<Rightarrow> int \<Rightarrow> 'a::{zero,one,plus,uminus,times} option list \<Rightarrow> int \<Rightarrow> int \<Rightarrow> int
     \<Rightarrow> int \<Rightarrow> int \<Rightarrow> int \<Rightarrow> int \<Rightarrow> int \<Rightarrow> int \<Rightarrow> int \<Rightarrow> 'a \<Rightarrow> 'a option" where
  "quad2D order nq dimn invJ iel_ho ix iy jx jy k kx ky iqy iqx val = do {
     let offset_x_i = (kx - ix + 1) * 2 + iqx;
     let offset_y_i = (ky - iy + 1) * 2 + iqy;
     let offset_x_j = (kx - jx + 1) * 2 + iqx;
     let offset_y_j = (ky - jy + 1) * 2 + iqy;
     let iq = iqx + iqy * 2;
     b_yi \<leftarrow> rd btab offset_y_i;
     let a = b_yi * (if offset_x_i < 2 then 1 else - 1);
     b_xi \<leftarrow> rd btab offset_x_i;
     let b = b_xi * (if offset_y_i < 2 then 1 else - 1);
     b_yj \<leftarrow> rd btab offset_y_j;
     let c = b_yj * (if offset_x_j < 2 then 1 else - 1);
     b_xj \<leftarrow> rd btab offset_x_j;
     let d = b_xj * (if offset_y_j < 2 then 1 else - 1);
     m0 \<leftarrow> ld invJ (ind4 ((dimn * (dimn + 1)) div 2) nq (order ^ nat dimn) 0 iq k iel_ho);
     let val = val + a * c * m0;
     m1 \<leftarrow> ld invJ (ind4 ((dimn * (dimn + 1)) div 2) nq (order ^ nat dimn) 1 iq k iel_ho);
     let val = val + (b * c + a * d) * m1;
     m2 \<leftarrow> ld invJ (ind4 ((dimn * (dimn + 1)) div 2) nq (order ^ nat dimn) 2 iq k iel_ho);
     let val = val + b * d * m2;
     Some val
   }"

text \<open>Lines 165-195: the value accumulated for the node pair \<open>(ix, iy)\<close>, \<open>(jx, jy)\<close>.\<close>

definition pair_val ::
  "int \<Rightarrow> int \<Rightarrow> int \<Rightarrow> 'a::{zero,one,plus,uminus,times} option list \<Rightarrow> int \<Rightarrow> int \<Rightarrow> int
     \<Rightarrow> int \<Rightarrow> int \<Rightarrow> 'a option" where
  "pair_val order nq dimn invJ iel_ho ix iy jx jy =
     for_loop (irange (k_begin iy jy) (k_end order iy jy)) (\<lambda>ky.
       for_loop (irange (k_begin ix jx) (k_end order ix jx)) (\<lambda>kx.
         for_loop (irange 0 2) (\<lambda>iqy.
           for_loop (irange 0 2) (\<lambda>iqx.
             quad2D order nq dimn invJ iel_ho ix iy jx jy (kx + ky * order) kx ky iqy iqx))))
       0"

text \<open>Lines 156-197: the body of the loop over \<open>yshift\<close>, with its \<^verbatim>\<open>continue\<close>.\<close>

definition col2D ::
  "int \<Rightarrow> int \<Rightarrow> int \<Rightarrow> 'a::{zero,one,plus,uminus,times} option list \<Rightarrow> int list \<Rightarrow> int list
     \<Rightarrow> int \<Rightarrow> int \<Rightarrow> int \<Rightarrow> int \<Rightarrow> int \<Rightarrow> int
     \<Rightarrow> 'a SparseMatrix \<Rightarrow> 'a SparseMatrix option" where
  "col2D order nq dimn invJ dofs lex_map iel_ho ix iy ii jx yshift A_mat =
     (let jy = iy + yshift in
      if jy < 0 \<or> jy \<ge> order + 1 then Some A_mat
      else do {
        l \<leftarrow> rd lex_map (jx + jy * (order + 1));
        jj \<leftarrow> rd dofs l;
        val \<leftarrow> pair_val order nq dimn invJ iel_ho ix iy jx jy;
        Some (Add ii jj val A_mat)
      })"

text \<open>Lines 145-200: the rows of one high-order element.\<close>

definition row2D ::
  "int \<Rightarrow> int \<Rightarrow> int \<Rightarrow> 'a::{zero,one,plus,uminus,times} option list \<Rightarrow> int list \<Rightarrow> int list
     \<Rightarrow> int \<Rightarrow> int \<Rightarrow> int \<Rightarrow> 'a SparseMatrix \<Rightarrow> 'a SparseMatrix option" where
  "row2D order nq dimn invJ dofs lex_map iel_ho iy ix A_mat = do {
     l \<leftarrow> rd lex_map (ix + iy * (order + 1));
     ii \<leftarrow> rd dofs l;
     for_loop (irange (- 1) 2) (\<lambda>xshift A_mat.
       let jx = ix + xshift in
       if jx < 0 \<or> jx \<ge> order + 1 then Some A_mat
       else for_loop (irange (- 1) 2)
              (col2D order nq dimn invJ dofs lex_map iel_ho ix iy ii jx) A_mat) A_mat
   }"

text \<open>Lines 141-201: the loop over the high-order elements.\<close>

definition element2D ::
  "int \<Rightarrow> int \<Rightarrow> int \<Rightarrow> 'a::{zero,one,plus,uminus,times} option list \<Rightarrow> 'a FiniteElementSpace
     \<Rightarrow> int \<Rightarrow> 'a SparseMatrix \<Rightarrow> 'a SparseMatrix option" where
  "element2D order nq dimn invJ fes_ho iel_ho A_mat = do {
     dofs \<leftarrow> rd (GetElementDofs fes_ho) iel_ho;
     for_loop (irange 0 (order + 1)) (\<lambda>iy.
       for_loop (irange 0 (order + 1)) (\<lambda>ix.
         row2D order nq dimn invJ dofs (GetLexicographicOrdering fes_ho) iel_ho iy ix)) A_mat
   }"

definition Assemble2DBatchedLOR ::
  "int \<Rightarrow> 'a::{zero,one,plus,minus,uminus,times,inverse} IntegrationPoint list
     \<Rightarrow> 'a Mesh \<Rightarrow> 'a Mesh \<Rightarrow> 'a FiniteElementSpace \<Rightarrow> 'a SparseMatrix
     \<Rightarrow> 'a SparseMatrix option" where
  "Assemble2DBatchedLOR order ir mesh_lor mesh_ho fes_ho A_mat = do {
     invJ \<leftarrow> geom2D order ir mesh_lor mesh_ho;
     for_loop (irange 0 (GetNE mesh_ho))
       (element2D order (int (length ir)) (Dimension mesh_ho) invJ fes_ho) A_mat
   }"

subsection \<open>Assemble3DBatchedLOR\<close>

text \<open>Lines 250-251, a comment: the trilinear map of the eight vertices, by coordinate.\<close>

definition trilinear3D ::
  "'a::{one,plus,minus,times} \<times> 'a \<times> 'a \<Rightarrow> 'a \<times> 'a \<times> 'a \<Rightarrow> 'a \<times> 'a \<times> 'a
     \<Rightarrow> 'a \<times> 'a \<times> 'a \<Rightarrow> 'a \<times> 'a \<times> 'a \<Rightarrow> 'a \<times> 'a \<times> 'a \<Rightarrow> 'a \<times> 'a \<times> 'a
     \<Rightarrow> 'a \<times> 'a \<times> 'a \<Rightarrow> 'a \<Rightarrow> 'a \<Rightarrow> 'a \<Rightarrow> 'a \<times> 'a \<times> 'a" where
  "trilinear3D v0 v1 v2 v3 v4 v5 v6 v7 x y z =
     (case (v0, v1, v2, v3, v4, v5, v6, v7) of
        ((v00, v01, v02), (v10, v11, v12), (v20, v21, v22), (v30, v31, v32),
         (v40, v41, v42), (v50, v51, v52), (v60, v61, v62), (v70, v71, v72)) \<Rightarrow>
     ((1 - x) * (1 - y) * (1 - z) * v00 + x * (1 - y) * (1 - z) * v10 + x * y * (1 - z) * v20
        + (1 - x) * y * (1 - z) * v30
        + (1 - x) * (1 - y) * z * v40 + x * (1 - y) * z * v50 + x * y * z * v60
        + (1 - x) * y * z * v70,
      (1 - x) * (1 - y) * (1 - z) * v01 + x * (1 - y) * (1 - z) * v11 + x * y * (1 - z) * v21
        + (1 - x) * y * (1 - z) * v31
        + (1 - x) * (1 - y) * z * v41 + x * (1 - y) * z * v51 + x * y * z * v61
        + (1 - x) * y * z * v71,
      (1 - x) * (1 - y) * (1 - z) * v02 + x * (1 - y) * (1 - z) * v12 + x * y * (1 - z) * v22
        + (1 - x) * y * (1 - z) * v32
        + (1 - x) * (1 - y) * z * v42 + x * (1 - y) * z * v52 + x * y * z * v62
        + (1 - x) * y * z * v72))"

text \<open>
  Lines 253-281: the Jacobian of the trilinear map of the eight vertices of a fine cell at
  the reference point \<open>(x, y, z)\<close>. A vertex is its three coordinates; the result lists
  \<open>J11, J12, J13, J21, J22, J23, J31, J32, J33\<close>.
\<close>

definition jacobian3D ::
  "'a::{one,plus,minus,uminus,times} \<times> 'a \<times> 'a \<Rightarrow> 'a \<times> 'a \<times> 'a \<Rightarrow> 'a \<times> 'a \<times> 'a
     \<Rightarrow> 'a \<times> 'a \<times> 'a \<Rightarrow> 'a \<times> 'a \<times> 'a \<Rightarrow> 'a \<times> 'a \<times> 'a \<Rightarrow> 'a \<times> 'a \<times> 'a
     \<Rightarrow> 'a \<times> 'a \<times> 'a \<Rightarrow> 'a \<Rightarrow> 'a \<Rightarrow> 'a
     \<Rightarrow> 'a \<times> 'a \<times> 'a \<times> 'a \<times> 'a \<times> 'a \<times> 'a \<times> 'a \<times> 'a" where
  "jacobian3D v0 v1 v2 v3 v4 v5 v6 v7 x y z =
     (case (v0, v1, v2, v3, v4, v5, v6, v7) of
        ((v00, v01, v02), (v10, v11, v12), (v20, v21, v22), (v30, v31, v32),
         (v40, v41, v42), (v50, v51, v52), (v60, v61, v62), (v70, v71, v72)) \<Rightarrow>
     (let J11 = - (1 - y) * (1 - z) * v00 + (1 - y) * (1 - z) * v10 + y * (1 - z) * v20
                - y * (1 - z) * v30
                - (1 - y) * z * v40 + (1 - y) * z * v50 + y * z * v60 - y * z * v70;
          J12 = - (1 - x) * (1 - z) * v00 - x * (1 - z) * v10 + x * (1 - z) * v20
                + (1 - x) * (1 - z) * v30
                - (1 - x) * z * v40 - x * z * v50 + x * z * v60 + (1 - x) * z * v70;
          J13 = - (1 - x) * (1 - y) * v00 - x * (1 - y) * v10 - x * y * v20
                - (1 - x) * y * v30
                + (1 - x) * (1 - y) * v40 + x * (1 - y) * v50 + x * y * v60 + (1 - x) * y * v70;
          J21 = - (1 - y) * (1 - z) * v01 + (1 - y) * (1 - z) * v11 + y * (1 - z) * v21
                - y * (1 - z) * v31
                - (1 - y) * z * v41 + (1 - y) * z * v51 + y * z * v61 - y * z * v71;
          J22 = - (1 - x) * (1 - z) * v01 - x * (1 - z) * v11 + x * (1 - z) * v21
                + (1 - x) * (1 - z) * v31
                - (1 - x) * z * v41 - x * z * v51 + x * z * v61 + (1 - x) * z * v71;
          J23 = - (1 - x) * (1 - y) * v01 - x * (1 - y) * v11 - x * y * v21
                - (1 - x) * y * v31
                + (1 - x) * (1 - y) * v41 + x * (1 - y) * v51 + x * y * v61 + (1 - x) * y * v71;
          J31 = - (1 - y) * (1 - z) * v02 + (1 - y) * (1 - z) * v12 + y * (1 - z) * v22
                - y * (1 - z) * v32
                - (1 - y) * z * v42 + (1 - y) * z * v52 + y * z * v62 - y * z * v72;
          J32 = - (1 - x) * (1 - z) * v02 - x * (1 - z) * v12 + x * (1 - z) * v22
                + (1 - x) * (1 - z) * v32
                - (1 - x) * z * v42 - x * z * v52 + x * z * v62 + (1 - x) * z * v72;
          J33 = - (1 - x) * (1 - y) * v02 - x * (1 - y) * v12 - x * y * v22
                - (1 - x) * y * v32
                + (1 - x) * (1 - y) * v42 + x * (1 - y) * v52 + x * y * v62 + (1 - x) * y * v72
      in (J11, J12, J13, J21, J22, J23, J31, J32, J33)))"

text \<open>Lines 293-295: the determinant.\<close>

definition detJ3D ::
  "'a::{plus,minus,times} \<times> 'a \<times> 'a \<times> 'a \<times> 'a \<times> 'a \<times> 'a \<times> 'a \<times> 'a \<Rightarrow> 'a" where
  "detJ3D Jac = (case Jac of (J11, J12, J13, J21, J22, J23, J31, J32, J33) \<Rightarrow>
     J11 * (J22 * J33 - J32 * J23) -
     J21 * (J12 * J33 - J32 * J13) +
     J31 * (J12 * J23 - J22 * J13))"

text \<open>
  Lines 297-306, under the comment \<^verbatim>\<open>adj(J)\<close>; the result lists
  \<open>A11, A12, A13, A21, A22, A23, A31, A32, A33\<close>.
\<close>

definition adjJ3D ::
  "'a::{minus,times} \<times> 'a \<times> 'a \<times> 'a \<times> 'a \<times> 'a \<times> 'a \<times> 'a \<times> 'a
     \<Rightarrow> 'a \<times> 'a \<times> 'a \<times> 'a \<times> 'a \<times> 'a \<times> 'a \<times> 'a \<times> 'a" where
  "adjJ3D Jac = (case Jac of (J11, J12, J13, J21, J22, J23, J31, J32, J33) \<Rightarrow>
     (let A11 = (J22 * J33) - (J23 * J32);
          A12 = (J32 * J13) - (J12 * J33);
          A13 = (J12 * J23) - (J22 * J13);
          A21 = (J31 * J23) - (J21 * J33);
          A22 = (J11 * J33) - (J13 * J31);
          A23 = (J21 * J13) - (J11 * J23);
          A31 = (J21 * J32) - (J31 * J22);
          A32 = (J31 * J12) - (J11 * J32);
          A33 = (J11 * J22) - (J12 * J21)
      in (A11, A12, A13, A21, A22, A23, A31, A32, A33)))"

text \<open>Lines 293-313: the six metric terms of one quadrature point, in the order stored.\<close>

definition metric3D ::
  "'a::{plus,minus,times,inverse} \<Rightarrow> 'a \<times> 'a \<times> 'a \<times> 'a \<times> 'a \<times> 'a \<times> 'a \<times> 'a \<times> 'a
     \<Rightarrow> 'a \<times> 'a \<times> 'a \<times> 'a \<times> 'a \<times> 'a" where
  "metric3D wq Jac =
     (let detJ = detJ3D Jac;
          w_detJ = wq / detJ
      in case adjJ3D Jac of (A11, A12, A13, A21, A22, A23, A31, A32, A33) \<Rightarrow>
        (w_detJ * (A11 * A11 + A12 * A12 + A13 * A13),
         w_detJ * (A11 * A21 + A12 * A22 + A13 * A23),
         w_detJ * (A11 * A31 + A12 * A32 + A13 * A33),
         w_detJ * (A21 * A21 + A22 * A22 + A23 * A23),
         w_detJ * (A21 * A31 + A22 * A32 + A23 * A33),
         w_detJ * (A31 * A31 + A32 * A32 + A33 * A33)))"

text \<open>Lines 244-314: the body of the loop over the quadrature points of one fine cell.\<close>

definition geom3D_point ::
  "'a::{one,plus,minus,uminus,times,inverse} IntegrationPoint list
     \<Rightarrow> ('a \<times> 'a \<times> 'a) list \<Rightarrow> int \<Rightarrow> int \<Rightarrow> int \<Rightarrow> int \<Rightarrow> int \<Rightarrow> int
     \<Rightarrow> 'a option list \<Rightarrow> 'a option list option" where
  "geom3D_point ir vs nq dimn nsub iel_ho iref iq invJ = do {
     v0 \<leftarrow> rd vs 0; v1 \<leftarrow> rd vs 1; v2 \<leftarrow> rd vs 2; v3 \<leftarrow> rd vs 3;
     v4 \<leftarrow> rd vs 4; v5 \<leftarrow> rd vs 5; v6 \<leftarrow> rd vs 6; v7 \<leftarrow> rd vs 7;
     ip \<leftarrow> rd ir iq;
     let Jac = jacobian3D v0 v1 v2 v3 v4 v5 v6 v7 (ip_x ip) (ip_y ip) (ip_z ip);
     let (m0, m1, m2, m3, m4, m5) = metric3D (weight ip) Jac;
     invJ \<leftarrow> st invJ (ind4 ((dimn * (dimn + 1)) div 2) nq nsub 0 iq iref iel_ho) m0;
     invJ \<leftarrow> st invJ (ind4 ((dimn * (dimn + 1)) div 2) nq nsub 1 iq iref iel_ho) m1;
     invJ \<leftarrow> st invJ (ind4 ((dimn * (dimn + 1)) div 2) nq nsub 2 iq iref iel_ho) m2;
     invJ \<leftarrow> st invJ (ind4 ((dimn * (dimn + 1)) div 2) nq nsub 3 iq iref iel_ho) m3;
     invJ \<leftarrow> st invJ (ind4 ((dimn * (dimn + 1)) div 2) nq nsub 4 iq iref iel_ho) m4;
     st invJ (ind4 ((dimn * (dimn + 1)) div 2) nq nsub 5 iq iref iel_ho) m5
   }"

text \<open>Lines 232-242: the eight vertices \<^verbatim>\<open>v0\<close>, ..., \<^verbatim>\<open>v7\<close> of a fine cell.\<close>

definition cell_vertices :: "'a Mesh \<Rightarrow> int \<Rightarrow> ('a \<times> 'a \<times> 'a) list option" where
  "cell_vertices mesh_lor iel_lor = do {
     v \<leftarrow> rd (GetElementVertices mesh_lor) iel_lor;
     i0 \<leftarrow> rd v 0; v0 \<leftarrow> rd (GetVertex mesh_lor) i0;
     i1 \<leftarrow> rd v 1; v1 \<leftarrow> rd (GetVertex mesh_lor) i1;
     i2 \<leftarrow> rd v 2; v2 \<leftarrow> rd (GetVertex mesh_lor) i2;
     i3 \<leftarrow> rd v 3; v3 \<leftarrow> rd (GetVertex mesh_lor) i3;
     i4 \<leftarrow> rd v 4; v4 \<leftarrow> rd (GetVertex mesh_lor) i4;
     i5 \<leftarrow> rd v 5; v5 \<leftarrow> rd (GetVertex mesh_lor) i5;
     i6 \<leftarrow> rd v 6; v6 \<leftarrow> rd (GetVertex mesh_lor) i6;
     i7 \<leftarrow> rd v 7; v7 \<leftarrow> rd (GetVertex mesh_lor) i7;
     Some [v0, v1, v2, v3, v4, v5, v6, v7]
   }"

text \<open>
  Lines 227-315: the loop over the fine cells; the vertices are fetched before the loop
  over the quadrature points.
\<close>

definition geom3D_cell ::
  "'a::{one,plus,minus,uminus,times,inverse} IntegrationPoint list \<Rightarrow> 'a Mesh
     \<Rightarrow> int \<Rightarrow> int \<Rightarrow> int \<Rightarrow> int \<Rightarrow> 'a option list \<Rightarrow> 'a option list option" where
  "geom3D_cell ir mesh_lor nq dimn nsub iel_lor invJ = do {
     e \<leftarrow> rd (embeddings mesh_lor) iel_lor;
     let iel_ho = parent e;
     let iref = matrix e;
     vs \<leftarrow> cell_vertices mesh_lor iel_lor;
     for_loop (irange 0 nq) (geom3D_point ir vs nq dimn nsub iel_ho iref) invJ
   }"

definition geom3D ::
  "int \<Rightarrow> 'a::{one,plus,minus,uminus,times,inverse} IntegrationPoint list \<Rightarrow> 'a Mesh \<Rightarrow> 'a Mesh
     \<Rightarrow> 'a option list option" where
  "geom3D order ir mesh_lor mesh_ho =
     (let nel_ho = GetNE mesh_ho;
          dimn = Dimension mesh_ho;
          nq = int (length ir);
          nsub = order ^ nat dimn;
          invJ_data = alloc ((nel_ho * nsub * nq * (dimn * (dimn + 1))) div 2)
      in for_loop (irange 0 (GetNE mesh_lor)) (geom3D_cell ir mesh_lor nq dimn nsub) invJ_data)"

text \<open>
  The objects in scope of the assembly loops of lines 363-460 that a statement there
  changes or could change: the global matrix behind the reference \<^verbatim>\<open>A_mat\<close> and the dense 8 x 8 matrix
  \<^verbatim>\<open>local_mat\<close> (64 values, written through \<^verbatim>\<open>local_mat_ptr\<close>). The arrays \<^verbatim>\<open>I\<close>,
  \<^verbatim>\<open>J\<close> and \<^verbatim>\<open>V\<close> of lines 351-353 are allocated and never used.
\<close>

record 'a state3D =
  A_mat_ref :: "'a SparseMatrix"
  local_mat :: "'a list"

text \<open>Lines 426-447: the body of the loop over \<open>ix\<close>, one test node of the sub-cell.\<close>

definition test3D ::
  "int \<Rightarrow> int list \<Rightarrow> int list \<Rightarrow> int \<Rightarrow> int \<Rightarrow> int \<Rightarrow> int \<Rightarrow> int \<Rightarrow> int
     \<Rightarrow> 'a::{zero,one,plus,uminus,times} \<times> 'a \<times> 'a \<times> 'a \<times> 'a \<times> 'a \<Rightarrow> 'a \<times> 'a \<times> 'a \<Rightarrow> int
     \<Rightarrow> int \<Rightarrow> int \<Rightarrow> int \<Rightarrow> 'a state3D \<Rightarrow> 'a state3D option" where
  "test3D nd1d dofs lex_map kx ky kz iqx iqy iqz Jm gj jj_loc iz iy ix s =
     (case (Jm, gj) of ((J0, J1, J2, J3, J4, J5), (gj_x, gj_y, gj_z)) \<Rightarrow> do {
        let gzi = (if iz = 0 then - 1 else 1);
        let bzi = (if iz = iqz then 1 else 0);
        let gyi = (if iy = 0 then - 1 else 1);
        let byi = (if iy = iqy then 1 else 0);
        let gxi = (if ix = 0 then - 1 else 1);
        let bxi = (if ix = iqx then 1 else 0);
        let gi_x = gxi * byi * bzi;
        let gi_y = bxi * gyi * bzi;
        let gi_z = bxi * byi * gzi;
        let ii_el = (ix + kx) + (iy + ky) * nd1d + (iz + kz) * nd1d * nd1d;
        l \<leftarrow> rd lex_map ii_el;
        ii \<leftarrow> rd dofs l;
        let ii_loc = ix + 2 * iy + 4 * iz;
        let val = (gi_x * gj_x) * J0
                  + (gi_y * gj_x + gi_x * gj_y) * J1
                  + (gi_z * gj_x + gi_x * gj_z) * J2
                  + (gi_y * gj_y) * J3
                  + (gi_z * gj_y + gi_y * gj_z) * J4
                  + (gi_z * gj_z) * J5;
        old \<leftarrow> rd (local_mat s) (ii_loc + 8 * jj_loc);
        lm \<leftarrow> wr (local_mat s) (ii_loc + 8 * jj_loc) (old + val);
        Some (s\<lparr>local_mat := lm\<rparr>)
      })"

text \<open>Lines 405-450: the body of the loop over \<open>jx\<close>, one trial node of the sub-cell.\<close>

definition trial3D ::
  "int \<Rightarrow> int list \<Rightarrow> int list \<Rightarrow> int \<Rightarrow> int \<Rightarrow> int \<Rightarrow> int \<Rightarrow> int \<Rightarrow> int
     \<Rightarrow> 'a::{zero,one,plus,uminus,times} \<times> 'a \<times> 'a \<times> 'a \<times> 'a \<times> 'a
     \<Rightarrow> int \<Rightarrow> int \<Rightarrow> int \<Rightarrow> 'a state3D \<Rightarrow> 'a state3D option" where
  "trial3D nd1d dofs lex_map kx ky kz iqx iqy iqz Jm jz jy jx s = do {
     let gzj = (if jz = 0 then - 1 else 1);
     let bzj = (if jz = iqz then 1 else 0);
     let gyj = (if jy = 0 then - 1 else 1);
     let byj = (if jy = iqy then 1 else 0);
     let gxj = (if jx = 0 then - 1 else 1);
     let bxj = (if jx = iqx then 1 else 0);
     let gj_x = gxj * byj * bzj;
     let gj_y = bxj * gyj * bzj;
     let gj_z = bxj * byj * gzj;
     let jj_el = (jx + kx) + (jy + ky) * nd1d + (jz + kz) * nd1d * nd1d;
     l \<leftarrow> rd lex_map jj_el;
     jj \<leftarrow> rd dofs l;
     let jj_loc = jx + 2 * jy + 4 * jz;
     for_loop (irange 0 2) (\<lambda>iz.
       for_loop (irange 0 2) (\<lambda>iy.
         for_loop (irange 0 2) (\<lambda>ix.
           test3D nd1d dofs lex_map kx ky kz iqx iqy iqz Jm (gj_x, gj_y, gj_z) jj_loc
             iz iy ix))) s
   }"

text \<open>Lines 384-453: the body of the loop over \<open>iqx\<close>, one quadrature point of the sub-cell.\<close>

definition quad3D ::
  "int \<Rightarrow> int \<Rightarrow> int \<Rightarrow> 'a::{zero,one,plus,uminus,times} option list \<Rightarrow> int \<Rightarrow> int list
     \<Rightarrow> int list \<Rightarrow> int \<Rightarrow> int \<Rightarrow> int \<Rightarrow> int \<Rightarrow> int \<Rightarrow> int \<Rightarrow> int \<Rightarrow> int
     \<Rightarrow> 'a state3D \<Rightarrow> 'a state3D option" where
  "quad3D order nq dimn invJ nd1d dofs lex_map iel_ho k kx ky kz iqz iqy iqx s = do {
     let iq = iqx + 2 * iqy + 4 * iqz;
     J0 \<leftarrow> ld invJ (ind4 ((dimn * (dimn + 1)) div 2) nq (order ^ nat dimn) 0 iq k iel_ho);
     J1 \<leftarrow> ld invJ (ind4 ((dimn * (dimn + 1)) div 2) nq (order ^ nat dimn) 1 iq k iel_ho);
     J2 \<leftarrow> ld invJ (ind4 ((dimn * (dimn + 1)) div 2) nq (order ^ nat dimn) 2 iq k iel_ho);
     J3 \<leftarrow> ld invJ (ind4 ((dimn * (dimn + 1)) div 2) nq (order ^ nat dimn) 3 iq k iel_ho);
     J4 \<leftarrow> ld invJ (ind4 ((dimn * (dimn + 1)) div 2) nq (order ^ nat dimn) 4 iq k iel_ho);
     J5 \<leftarrow> ld invJ (ind4 ((dimn * (dimn + 1)) div 2) nq (order ^ nat dimn) 5 iq k iel_ho);
     for_loop (irange 0 2) (\<lambda>jz.
       for_loop (irange 0 2) (\<lambda>jy.
         for_loop (irange 0 2) (\<lambda>jx.
           trial3D nd1d dofs lex_map kx ky kz iqx iqy iqz (J0, J1, J2, J3, J4, J5)
             jz jy jx))) s
   }"

text \<open>
  Lines 373-456: the body of the loop over \<open>kx\<close>, one sub-cell. Line 375 resets the
  local matrix; no statement uses it after the loops over the quadrature points.
\<close>

definition subcell3D ::
  "int \<Rightarrow> int \<Rightarrow> int \<Rightarrow> 'a::{zero,one,plus,uminus,times} option list \<Rightarrow> int \<Rightarrow> int list
     \<Rightarrow> int list \<Rightarrow> int \<Rightarrow> int \<Rightarrow> int \<Rightarrow> int \<Rightarrow> 'a state3D \<Rightarrow> 'a state3D option" where
  "subcell3D order nq dimn invJ nd1d dofs lex_map iel_ho kz ky kx s =
     (let k = kx + ky * order + kz * order * order;
          s = s\<lparr>local_mat := map (\<lambda>_. 0) (local_mat s)\<rparr>
      in for_loop (irange 0 2) (\<lambda>iqz.
           for_loop (irange 0 2) (\<lambda>iqy.
             for_loop (irange 0 2) (\<lambda>iqx.
               quad3D order nq dimn invJ nd1d dofs lex_map iel_ho k kx ky kz iqz iqy iqx))) s)"

text \<open>Lines 363-460: the loop over the high-order elements.\<close>

definition element3D ::
  "int \<Rightarrow> int \<Rightarrow> int \<Rightarrow> 'a::{zero,one,plus,uminus,times} option list \<Rightarrow> 'a FiniteElementSpace
     \<Rightarrow> int \<Rightarrow> 'a state3D \<Rightarrow> 'a state3D option" where
  "element3D order nq dimn invJ fes_ho iel_ho s = do {
     dofs \<leftarrow> rd (GetElementDofs fes_ho) iel_ho;
     for_loop (irange 0 order) (\<lambda>kz.
       for_loop (irange 0 order) (\<lambda>ky.
         for_loop (irange 0 order) (\<lambda>kx.
           subcell3D order nq dimn invJ (order + 1) dofs (GetLexicographicOrdering fes_ho)
             iel_ho kz ky kx))) s
   }"

text \<open>
  The kernel: the metric terms, then the assembly loops started with the matrix passed
  in and the 8 x 8 matrix of line 360, which its constructor fills with zeros. The
  result is the global matrix as the kernel leaves it.
\<close>

definition Assemble3DBatchedLOR ::
  "int \<Rightarrow> 'a::{zero,one,plus,minus,uminus,times,inverse} IntegrationPoint list
     \<Rightarrow> 'a Mesh \<Rightarrow> 'a Mesh \<Rightarrow> 'a FiniteElementSpace \<Rightarrow> 'a SparseMatrix
     \<Rightarrow> 'a SparseMatrix option" where
  "Assemble3DBatchedLOR order ir mesh_lor mesh_ho fes_ho A = do {
     invJ \<leftarrow> geom3D order ir mesh_lor mesh_ho;
     s \<leftarrow> for_loop (irange 0 (GetNE mesh_ho))
            (element3D order (int (length ir)) (Dimension mesh_ho) invJ fes_ho)
            \<lparr>A_mat_ref = A, local_mat = replicate 64 0\<rparr>;
     Some (A_mat_ref s)
   }"

subsection \<open>AssembleBatchedLOR\<close>

text \<open>
  \<^verbatim>\<open>MFEM_VERIFY\<close> aborts the call with its message when its condition is false, in every
  build. The driver returns the message then, and \<open>OutOfRange\<close> when a kernel has no
  defined result; otherwise it returns the matrix the handle \<^verbatim>\<open>A\<close> receives. The
  quadrature rule \<open>ir\<close> that both kernels fetch for the geometry of the fine mesh is a
  parameter.
\<close>

datatype error = VerifyFailed string | OutOfRange

text \<open>Lines 478-521: the two \<^verbatim>\<open>switch\<close> statements, with a case for each order from 1 to 16.\<close>

definition dispatch ::
  "'a::{zero,one,plus,minus,uminus,times,inverse} IntegrationPoint list \<Rightarrow> int \<Rightarrow> int
     \<Rightarrow> 'a Mesh \<Rightarrow> 'a Mesh \<Rightarrow> 'a FiniteElementSpace \<Rightarrow> 'a SparseMatrix
     \<Rightarrow> 'a SparseMatrix option" where
  "dispatch ir dimn order mesh_lor mesh_ho fes_ho A =
     (if dimn = 2 then
        (if order \<in> set [1..16] then Assemble2DBatchedLOR order ir mesh_lor mesh_ho fes_ho A
         else Some A)
      else if dimn = 3 then
        (if order \<in> set [1..16] then Assemble3DBatchedLOR order ir mesh_lor mesh_ho fes_ho A
         else Some A)
      else Some A)"

text \<open>Lines 523-526: the loop over the essential dofs.\<close>

definition eliminate :: "int list \<Rightarrow> 'a::zero SparseMatrix \<Rightarrow> 'a SparseMatrix" where
  "eliminate ess_dofs A = fold (\<lambda>i. EliminateRowCol i DIAG_KEEP) ess_dofs A"

definition AssembleBatchedLOR ::
  "'a::{zero,one,plus,minus,uminus,times,inverse} IntegrationPoint list \<Rightarrow> 'a BilinearForm
     \<Rightarrow> 'a FiniteElementSpace \<Rightarrow> int list \<Rightarrow> error + 'a SparseMatrix" where
  "AssembleBatchedLOR ir form_lor fes_ho ess_dofs =
     (if \<not> UsesTensorBasis fes_ho
      then Inl (VerifyFailed ''Batched LOR assembly requires tensor basis'')
      else
        let mesh_lor = GetMesh (FESpace form_lor);
            mesh_ho = GetMesh fes_ho;
            dimn = Dimension mesh_ho;
            order = GetMaxElementOrder fes_ho;
            ndofs = GetTrueVSize fes_ho
        in case dispatch ir dimn order mesh_lor mesh_ho fes_ho (SparseMatrix_new ndofs ndofs) of
             None \<Rightarrow> Inl OutOfRange
           | Some A_mat \<Rightarrow> Inr (Finalize (eliminate ess_dofs A_mat)))"

section \<open>Inputs on which the 3D assembly loops return\<close>

text \<open>
  The eight corners of sub-cell \<open>(kx, ky, kz)\<close> have a position in the lexicographic map
  and that position holds a dof; the 48 metric slots of sub-cell \<open>k\<close> of element \<open>iel_ho\<close>
  are allocated and written; an element has its dofs, and both hold for its sub-cells.
\<close>

definition corners_ok :: "int \<Rightarrow> int list \<Rightarrow> int list \<Rightarrow> int \<Rightarrow> int \<Rightarrow> int \<Rightarrow> bool" where
  "corners_ok nd1d dofs lex_map kx ky kz \<longleftrightarrow>
     (\<forall>iz\<in>set (irange 0 2). \<forall>iy\<in>set (irange 0 2). \<forall>ix\<in>set (irange 0 2).
        case rd lex_map ((ix + kx) + (iy + ky) * nd1d + (iz + kz) * nd1d * nd1d) of
          None \<Rightarrow> False | Some l \<Rightarrow> rd dofs l \<noteq> None)"

definition slots_ok :: "int \<Rightarrow> int \<Rightarrow> int \<Rightarrow> 'a option list \<Rightarrow> int \<Rightarrow> int \<Rightarrow> bool" where
  "slots_ok order nq dimn invJ k iel_ho \<longleftrightarrow>
     (\<forall>iq\<in>set (irange 0 8). \<forall>c\<in>set (irange 0 6).
        ld invJ (ind4 ((dimn * (dimn + 1)) div 2) nq (order ^ nat dimn) c iq k iel_ho) \<noteq> None)"

definition element_ok ::
  "int \<Rightarrow> int \<Rightarrow> int \<Rightarrow> 'a option list \<Rightarrow> 'a FiniteElementSpace \<Rightarrow> int \<Rightarrow> bool" where
  "element_ok order nq dimn invJ fes_ho iel_ho \<longleftrightarrow>
     (case rd (GetElementDofs fes_ho) iel_ho of
        None \<Rightarrow> False
      | Some dofs \<Rightarrow>
          (\<forall>kz\<in>set (irange 0 order). \<forall>ky\<in>set (irange 0 order). \<forall>kx\<in>set (irange 0 order).
             corners_ok (order + 1) dofs (GetLexicographicOrdering fes_ho) kx ky kz
             \<and> slots_ok order nq dimn invJ (kx + ky * order + kz * order * order) iel_ho))"

section \<open>What the geometric factor cache writes\<close>

text \<open>
  Vocabulary for the statements about the metric buffer. \<open>updates W E f\<close>: when the
  buffer operation \<open>f\<close> returns, the buffer has kept its length, every slot outside \<open>W\<close>
  reads as before, and every slot \<open>j\<close> with \<open>E j v\<close> reads \<open>v\<close>. \<open>cell_slots\<close> are the slots
  of the sub-cell of an embedding. \<open>embeddings_ok\<close> is the invariant of the refinement
  table: the fine cells have pairwise different (parent, sub-cell) pairs and sub-cell
  indices within the \<open>nsub\<close> sub-cells of an element. \<open>point_metric2D\<close> and
  \<open>point_metric3D\<close> name the metric terms of quadrature point \<open>iq\<close> of a fine cell.
  \<open>geom3D_ok\<close> holds of the inputs on which the 3D cache returns: every fine cell has
  its embedding and its eight vertices, and its slots lie within the allocated buffer.
\<close>

definition updates :: "int set \<Rightarrow> (int \<Rightarrow> 'v \<Rightarrow> bool) \<Rightarrow> ('v list \<Rightarrow> 'v list option) \<Rightarrow> bool" where
  "updates W E f \<longleftrightarrow>
     (\<forall>t t'. f t = Some t' \<longrightarrow>
        length t' = length t
        \<and> (\<forall>j. j \<notin> W \<longrightarrow> rd t' j = rd t j)
        \<and> (\<forall>j v. E j v \<longrightarrow> rd t' j = Some v))"

definition cell_slots :: "int \<Rightarrow> int \<Rightarrow> int \<Rightarrow> int \<Rightarrow> Embedding option \<Rightarrow> int set" where
  "cell_slots nc nq nsub ncomp eo =
     (case eo of
        None \<Rightarrow> {}
      | Some e \<Rightarrow> {ind4 nc nq nsub c iq (matrix e) (parent e) | c iq.
                    0 \<le> c \<and> c < ncomp \<and> 0 \<le> iq \<and> iq < nq})"

definition embeddings_ok :: "int \<Rightarrow> 'a Mesh \<Rightarrow> bool" where
  "embeddings_ok nsub mesh_lor \<longleftrightarrow>
     (let es = take (nat (GetNE mesh_lor)) (embeddings mesh_lor)
      in distinct (map (\<lambda>e. (parent e, matrix e)) es)
         \<and> (\<forall>e\<in>set es. 0 \<le> matrix e \<and> matrix e < nsub))"

definition point_metric2D ::
  "'a::{plus,minus,uminus,times,inverse} IntegrationPoint list \<Rightarrow> 'a list \<Rightarrow> int \<Rightarrow> int \<Rightarrow> int
     \<Rightarrow> int \<Rightarrow> 'a \<times> 'a \<times> 'a" where
  "point_metric2D ir J nq dimn iel_lor iq =
     metric2D (weight (ir ! nat iq))
       (J ! nat (ind4 nq dimn dimn iq 0 0 iel_lor)) (J ! nat (ind4 nq dimn dimn iq 1 0 iel_lor))
       (J ! nat (ind4 nq dimn dimn iq 0 1 iel_lor)) (J ! nat (ind4 nq dimn dimn iq 1 1 iel_lor))"

definition comp3 :: "int \<Rightarrow> 'a \<times> 'a \<times> 'a \<Rightarrow> 'a" where
  "comp3 c m = (case m of (m0, m1, m2) \<Rightarrow> if c = 0 then m0 else if c = 1 then m1 else m2)"

definition point_metric3D ::
  "'a::{one,plus,minus,uminus,times,inverse} IntegrationPoint list \<Rightarrow> ('a \<times> 'a \<times> 'a) list
     \<Rightarrow> int \<Rightarrow> 'a \<times> 'a \<times> 'a \<times> 'a \<times> 'a \<times> 'a" where
  "point_metric3D ir vs iq =
     metric3D (weight (ir ! nat iq))
       (jacobian3D (vs ! 0) (vs ! 1) (vs ! 2) (vs ! 3) (vs ! 4) (vs ! 5) (vs ! 6) (vs ! 7)
          (ip_x (ir ! nat iq)) (ip_y (ir ! nat iq)) (ip_z (ir ! nat iq)))"

definition comp6 :: "int \<Rightarrow> 'a \<times> 'a \<times> 'a \<times> 'a \<times> 'a \<times> 'a \<Rightarrow> 'a" where
  "comp6 c m = (case m of (m0, m1, m2, m3, m4, m5) \<Rightarrow>
     if c = 0 then m0 else if c = 1 then m1 else if c = 2 then m2
     else if c = 3 then m3 else if c = 4 then m4 else m5)"

definition slots_in_range :: "int \<Rightarrow> int \<Rightarrow> int \<Rightarrow> int \<Rightarrow> int \<Rightarrow> Embedding \<Rightarrow> bool" where
  "slots_in_range bsize nc nq nsub ncomp e \<longleftrightarrow>
     (\<forall>iq\<in>set (irange 0 nq). \<forall>c\<in>set (irange 0 ncomp).
        0 \<le> ind4 nc nq nsub c iq (matrix e) (parent e)
        \<and> ind4 nc nq nsub c iq (matrix e) (parent e) < bsize)"

definition geom3D_ok :: "int \<Rightarrow> 'a IntegrationPoint list \<Rightarrow> 'a Mesh \<Rightarrow> 'a Mesh \<Rightarrow> bool" where
  "geom3D_ok order ir mesh_lor mesh_ho \<longleftrightarrow>
     (let nel_ho = GetNE mesh_ho;
          dimn = Dimension mesh_ho;
          nq = int (length ir);
          nsub = order ^ nat dimn;
          bsize = (nel_ho * nsub * nq * (dimn * (dimn + 1))) div 2
      in \<forall>iel_lor\<in>set (irange 0 (GetNE mesh_lor)).
           (case rd (embeddings mesh_lor) iel_lor of
              None \<Rightarrow> False
            | Some e \<Rightarrow> slots_in_range bsize ((dimn * (dimn + 1)) div 2) nq nsub 6 e)
           \<and> cell_vertices mesh_lor iel_lor \<noteq> None)"

text \<open>
  The formula of claim C9, for comparison with \<open>metric3D\<close>: the six independent entries
  of \<open>A\<^sup>T A\<close>, in the order xx, xy, xz, yy, yz, zz, times \<open>weight / detJ\<close>.
\<close>

definition AtA_metric3D ::
  "'a::{plus,minus,times,inverse} \<Rightarrow> 'a \<times> 'a \<times> 'a \<times> 'a \<times> 'a \<times> 'a \<times> 'a \<times> 'a \<times> 'a
     \<Rightarrow> 'a \<times> 'a \<times> 'a \<times> 'a \<times> 'a \<times> 'a" where
  "AtA_metric3D wq Jac =
     (let detJ = detJ3D Jac;
          w_detJ = wq / detJ
      in case adjJ3D Jac of (A11, A12, A13, A21, A22, A23, A31, A32, A33) \<Rightarrow>
        (w_detJ * (A11 * A11 + A21 * A21 + A31 * A31),
         w_detJ * (A11 * A12 + A21 * A22 + A31 * A32),
         w_detJ * (A11 * A13 + A21 * A23 + A31 * A33),
         w_detJ * (A12 * A12 + A22 * A22 + A32 * A32),
         w_detJ * (A12 * A13 + A22 * A23 + A32 * A33),
         w_detJ * (A13 * A13 + A23 * A23 + A33 * A33)))"

definition square_invJ :: "real option list" where
  "square_invJ = [Some (1/4), Some 0, Some (1/4), Some (1/4), Some 0, Some (1/4),
                  Some (1/4), Some 0, Some (1/4), Some (1/4), Some 0, Some (1/4)]"

section \<open>Example inputs\<close>

text \<open>A small matrix with stored entries on and off the diagonal.\<close>

definition small_matrix :: "real SparseMatrix" where
  "small_matrix = Add 1 0 7 (Add 0 1 5 (Add 1 1 3 (Add 0 0 2 (SparseMatrix_new 2 2))))"

text \<open>
  The unit square as a single element of order 1: the rule with the four corners as
  points and weight 1/4 each (two Gauss-Lobatto points per axis on the unit interval),
  the Jacobian of the identity map at each point, the dofs in the native order of the
  four vertices and the lexicographic map of the order-1 quadrilateral.
\<close>

definition square_ir :: "real IntegrationPoint list" where
  "square_ir = [\<lparr>ip_x = 0, ip_y = 0, ip_z = 0, weight = 1/4\<rparr>,
                \<lparr>ip_x = 1, ip_y = 0, ip_z = 0, weight = 1/4\<rparr>,
                \<lparr>ip_x = 0, ip_y = 1, ip_z = 0, weight = 1/4\<rparr>,
                \<lparr>ip_x = 1, ip_y = 1, ip_z = 0, weight = 1/4\<rparr>]"

definition square_mesh :: "real Mesh" where
  "square_mesh = \<lparr>GetNE = 1, Dimension = 2, embeddings = [\<lparr>parent = 0, matrix = 0\<rparr>],
     geom_J = [1, 1, 1, 1,  0, 0, 0, 0,  0, 0, 0, 0,  1, 1, 1, 1],
     GetElementVertices = [[0, 1, 2, 3]],
     GetVertex = [(0, 0, 0), (1, 0, 0), (1, 1, 0), (0, 1, 0)]\<rparr>"

definition square_fes :: "real FiniteElementSpace" where
  "square_fes = \<lparr>GetMesh = square_mesh, UsesTensorBasis = True, GetMaxElementOrder = 1,
     GetTrueVSize = 4, GetElementDofs = [[0, 1, 2, 3]],
     GetLexicographicOrdering = [0, 1, 3, 2]\<rparr>"

definition square_form :: "real BilinearForm" where
  "square_form = \<lparr>FESpace = square_fes\<rparr>"

text \<open>
  A sheared unit cube as a single element of order 1: the top face \<open>y = 1\<close> is shifted by
  1 along \<open>x\<close>. The rule has the eight corners as points, weight 1/8 each.
\<close>

definition cube_ir :: "real IntegrationPoint list" where
  "cube_ir = [\<lparr>ip_x = 0, ip_y = 0, ip_z = 0, weight = 1/8\<rparr>,
              \<lparr>ip_x = 1, ip_y = 0, ip_z = 0, weight = 1/8\<rparr>,
              \<lparr>ip_x = 0, ip_y = 1, ip_z = 0, weight = 1/8\<rparr>,
              \<lparr>ip_x = 1, ip_y = 1, ip_z = 0, weight = 1/8\<rparr>,
              \<lparr>ip_x = 0, ip_y = 0, ip_z = 1, weight = 1/8\<rparr>,
              \<lparr>ip_x = 1, ip_y = 0, ip_z = 1, weight = 1/8\<rparr>,
              \<lparr>ip_x = 0, ip_y = 1, ip_z = 1, weight = 1/8\<rparr>,
              \<lparr>ip_x = 1, ip_y = 1, ip_z = 1, weight = 1/8\<rparr>]"

definition sheared_mesh :: "real Mesh" where
  "sheared_mesh = \<lparr>GetNE = 1, Dimension = 3, embeddings = [\<lparr>parent = 0, matrix = 0\<rparr>],
     geom_J = [],
     GetElementVertices = [[0, 1, 2, 3, 4, 5, 6, 7]],
     GetVertex = [(0, 0, 0), (1, 0, 0), (2, 1, 0), (1, 1, 0),
                  (0, 0, 1), (1, 0, 1), (2, 1, 1), (1, 1, 1)]\<rparr>"

definition sheared_fes :: "real FiniteElementSpace" where
  "sheared_fes = \<lparr>GetMesh = sheared_mesh, UsesTensorBasis = True, GetMaxElementOrder = 1,
     GetTrueVSize = 8, GetElementDofs = [[0, 1, 2, 3, 4, 5, 6, 7]],
     GetLexicographicOrdering = [0, 1, 3, 2, 4, 5, 7, 6]\<rparr>"

definition sheared_form :: "real BilinearForm" where
  "sheared_form = \<lparr>FESpace = sheared_fes\<rparr>"

text \<open>
  Two metric buffers that hold the same 48 values in the slots of the first sub-cell and
  differ behind them, and two states of the 3D loops with different local matrices.
\<close>

definition metric_slots :: "real option list" where
  "metric_slots =
     [Some (1/4), Some (- (1/8)), Some 0, Some (1/8), Some 0, Some (1/8),
      Some (1/4), Some (- (1/8)), Some 0, Some (1/8), Some 0, Some (1/8),
      Some (1/4), Some (- (1/8)), Some 0, Some (1/8), Some 0, Some (1/8),
      Some (1/4), Some (- (1/8)), Some 0, Some (1/8), Some 0, Some (1/8),
      Some (1/4), Some (- (1/8)), Some 0, Some (1/8), Some 0, Some (1/8),
      Some (1/4), Some (- (1/8)), Some 0, Some (1/8), Some 0, Some (1/8),
      Some (1/4), Some (- (1/8)), Some 0, Some (1/8), Some 0, Some (1/8),
      Some (1/4), Some (- (1/8)), Some 0, Some (1/8), Some 0, Some (1/8)]"

definition buffer_a :: "real option list" where
  "buffer_a = metric_slots @ [None, None]"

definition buffer_b :: "real option list" where
  "buffer_b = metric_slots @ [Some 7, Some 9]"

definition stale_state :: "real state3D" where
  "stale_state = \<lparr>A_mat_ref = SparseMatrix_new 8 8, local_mat = replicate 64 5\<rparr>"

definition fresh_state :: "real state3D" where
  "fresh_state = \<lparr>A_mat_ref = small_matrix, local_mat = replicate 64 0\<rparr>"

text \<open>A single parallelogram element with vertices \<open>(0,0)\<close>, \<open>(2,0)\<close>, \<open>(3,1)\<close>, \<open>(1,1)\<close>:
  its Jacobian is \<open>[[2, 1], [0, 1]]\<close> at every point, and the buffer below is what the 2D
  cache holds for it.\<close>

definition para_mesh :: "real Mesh" where
  "para_mesh = \<lparr>GetNE = 1, Dimension = 2, embeddings = [\<lparr>parent = 0, matrix = 0\<rparr>],
     geom_J = [2, 2, 2, 2,  0, 0, 0, 0,  1, 1, 1, 1,  1, 1, 1, 1],
     GetElementVertices = [[0, 1, 2, 3]],
     GetVertex = [(0, 0, 0), (2, 0, 0), (3, 1, 0), (1, 1, 0)]\<rparr>"

definition para_invJ :: "real option list" where
  "para_invJ = [Some (1/4), Some (- (1/4)), Some (1/2), Some (1/4), Some (- (1/4)), Some (1/2),
                Some (1/4), Some (- (1/4)), Some (1/2), Some (1/4), Some (- (1/4)), Some (1/2)]"

section \<open>Properties\<close>

subsection \<open>Loops\<close>

lemma set_irange: "set (irange lo hi) = {lo..<hi}"
  by (auto simp: irange_def)

lemma distinct_irange: "distinct (irange lo hi)"
  by (simp add: irange_def)

text \<open>A property that every iteration preserves holds when the loop returns.\<close>

lemma for_loop_inv:
  assumes "for_loop xs body s = Some s'" and "P s"
    and "\<And>i t t'. i \<in> set xs \<Longrightarrow> P t \<Longrightarrow> body i t = Some t' \<Longrightarrow> P t'"
  shows "P s'"
  using assms
proof (induction xs arbitrary: s)
  case Nil
  then show ?case by simp
next
  case (Cons i rest)
  from Cons.prems(1) obtain t where t: "body i s = Some t" and r: "for_loop rest body t = Some s'"
    by (auto split: option.splits)
  have "P t" using Cons.prems(2,3) t by auto
  then show ?case using Cons.IH [OF r] Cons.prems(3) by auto
qed

text \<open>A loop whose iterations all return, on the states of an invariant, returns.\<close>

lemma for_loop_total:
  assumes "P s"
    and "\<And>i t. i \<in> set xs \<Longrightarrow> P t \<Longrightarrow> \<exists>t'. body i t = Some t' \<and> P t'"
  shows "\<exists>s'. for_loop xs body s = Some s' \<and> P s'"
  using assms
proof (induction xs arbitrary: s)
  case Nil
  then show ?case by simp
next
  case (Cons i rest)
  from Cons.prems obtain t where t: "body i s = Some t" "P t" by fastforce
  from Cons.IH [OF t(2)] Cons.prems(2) obtain s' where "for_loop rest body t = Some s'" "P s'"
    by auto
  then show ?case using t by auto
qed

text \<open>Two loops over the same range whose bodies keep a relation keep it.\<close>

lemma for_loop_rel:
  assumes "R s t"
    and "\<And>i s t. i \<in> set xs \<Longrightarrow> R s t \<Longrightarrow> rel_option R (f i s) (g i t)"
  shows "rel_option R (for_loop xs f s) (for_loop xs g t)"
  using assms
proof (induction xs arbitrary: s t)
  case Nil
  then show ?case by simp
next
  case (Cons i rest)
  have h: "rel_option R (f i s) (g i t)" using Cons.prems by auto
  show ?case
  proof (cases "f i s")
    case None
    then show ?thesis using h by (cases "g i t") auto
  next
    case (Some s1)
    then obtain t1 where t1: "g i t = Some t1" "R s1 t1" using h by (cases "g i t") auto
    have "rel_option R (for_loop rest f s1) (for_loop rest g t1)"
      using Cons.IH [OF t1(2)] Cons.prems(2) by auto
    then show ?thesis using Some t1 by simp
  qed
qed

subsection \<open>The sub-cells of a node pair\<close>

lemma irange_k:
  "irange (k_begin i j) (k_end p i j) = [max (max (i - 1) 0) (j - 1) .. min (min i j) (p - 1)]"
proof -
  have "min (min i (p - 1)) j = min (min i j) (p - 1)" by simp
  then show ?thesis by (simp add: irange_def k_begin_def k_end_def)
qed

text \<open>
  C4. In the 2D assembler the value of a node pair \<open>(ix, iy)\<close>, \<open>(jx, jy)\<close> of an element of
  order \<open>p\<close> is accumulated, from zero, by the loops of lines 166-168 over exactly
  \<open>ky \<in> [max(iy-1, 0, jy-1), min(iy, jy, p-1)]\<close> and
  \<open>kx \<in> [max(ix-1, 0, jx-1), min(ix, jx, p-1)]\<close>, bounds included and each index once,
  with the four quadrature points of a sub-cell inside; and these ranges are the
  sub-cells \<open>0 \<le> k < p\<close> that have both nodes among their corners \<open>k\<close> and \<open>k + 1\<close>. This
  holds for all indices, so for the pairs the assembler visits (\<open>ix, jx, iy, jy\<close> in
  \<open>[0, p]\<close>, \<open>|jx - ix| \<le> 1\<close>, \<open>|jy - iy| \<le> 1\<close>).
\<close>

theorem overlap_range:
  "pair_val p nq dimn invJ iel_ho ix iy jx jy
     = for_loop [max (max (iy - 1) 0) (jy - 1) .. min (min iy jy) (p - 1)] (\<lambda>ky.
         for_loop [max (max (ix - 1) 0) (jx - 1) .. min (min ix jx) (p - 1)] (\<lambda>kx.
           for_loop (irange 0 2) (\<lambda>iqy.
             for_loop (irange 0 2) (\<lambda>iqx.
               quad2D p nq dimn invJ iel_ho ix iy jx jy (kx + ky * p) kx ky iqy iqx)))) 0
   \<and> set [max (max (ix - 1) 0) (jx - 1) .. min (min ix jx) (p - 1)]
     = {kx. 0 \<le> kx \<and> kx < p \<and> kx \<le> ix \<and> ix \<le> kx + 1 \<and> kx \<le> jx \<and> jx \<le> kx + 1}
   \<and> set [max (max (iy - 1) 0) (jy - 1) .. min (min iy jy) (p - 1)]
     = {ky. 0 \<le> ky \<and> ky < p \<and> ky \<le> iy \<and> iy \<le> ky + 1 \<and> ky \<le> jy \<and> jy \<le> ky + 1}
   \<and> distinct [max (max (ix - 1) 0) (jx - 1) .. min (min ix jx) (p - 1)]
   \<and> distinct [max (max (iy - 1) 0) (jy - 1) .. min (min iy jy) (p - 1)]"
proof (intro conjI)
  show "pair_val p nq dimn invJ iel_ho ix iy jx jy
     = for_loop [max (max (iy - 1) 0) (jy - 1) .. min (min iy jy) (p - 1)] (\<lambda>ky.
         for_loop [max (max (ix - 1) 0) (jx - 1) .. min (min ix jx) (p - 1)] (\<lambda>kx.
           for_loop (irange 0 2) (\<lambda>iqy.
             for_loop (irange 0 2) (\<lambda>iqx.
               quad2D p nq dimn invJ iel_ho ix iy jx jy (kx + ky * p) kx ky iqy iqx)))) 0"
    unfolding pair_val_def irange_k ..
qed auto

subsection \<open>Elimination of the essential dofs\<close>

lemma entries_EliminateRowCol:
  "entries (EliminateRowCol rc pol A) (r, c) =
     (if (r = rc \<or> c = rc) \<and> r \<noteq> c then map_option (\<lambda>_. 0) (entries A (r, c))
      else entries A (r, c))"
  by (simp add: EliminateRowCol_def)

lemma entries_eliminate:
  "entries (eliminate es A) (r, c) =
     (if (r \<in> set es \<or> c \<in> set es) \<and> r \<noteq> c then map_option (\<lambda>_. 0) (entries A (r, c))
      else entries A (r, c))"
  unfolding eliminate_def
proof (induction es arbitrary: A)
  case Nil
  then show ?case by simp
next
  case (Cons e es)
  show ?case
    by (simp add: Cons.IH entries_EliminateRowCol option.map_comp comp_def)
qed

text \<open>
  C2. After the loop over the essential dofs, for every essential dof \<open>i\<close> and every
  \<open>j \<noteq> i\<close> the entries \<open>(i, j)\<close> and \<open>(j, i)\<close> are zero, and the diagonal entry \<open>(i, i)\<close> is the
  one of the matrix before the loop (stored or not, and with the same value).
\<close>

theorem elimination_contract:
  assumes "i \<in> set ess_dofs" and "j \<noteq> i"
  shows "Elem (eliminate ess_dofs A) i j = 0 \<and> Elem (eliminate ess_dofs A) j i = 0
         \<and> entries (eliminate ess_dofs A) (i, i) = entries A (i, i)
         \<and> Elem (eliminate ess_dofs A) i i = Elem A i i"
  using assms by (auto simp: Elem_def entries_eliminate split: option.splits)

theorem elimination_contract_witness:
  "(0::int) \<in> set [0] \<and> (1::int) \<noteq> 0
   \<and> Elem small_matrix 0 1 = 5 \<and> Elem small_matrix 1 0 = 7
   \<and> Elem (eliminate [0] small_matrix) 0 1 = 0 \<and> Elem (eliminate [0] small_matrix) 1 0 = 0
   \<and> Elem (eliminate [0] small_matrix) 0 0 = 2"
proof -
  have e: "Elem small_matrix 0 0 = 2" "Elem small_matrix 0 1 = 5" "Elem small_matrix 1 0 = 7"
    by (simp_all add: small_matrix_def Add_def Elem_def SparseMatrix_new_def)
  show ?thesis
    using elimination_contract [of 0 "[0]" 1 small_matrix] e by simp
qed

subsection \<open>The driver\<close>

lemma entries_eliminate_new: "entries (eliminate es (SparseMatrix_new h w)) = Map.empty"
  by (rule ext) (auto simp: entries_eliminate SparseMatrix_new_def)

lemma dispatch_unsupported:
  "order < 1 \<or> 16 < order \<Longrightarrow> dispatch ir dimn order mesh_lor mesh_ho fes_ho A = Some A"
  by (auto simp: dispatch_def)

text \<open>
  C6. When the space uses a tensor basis and its order is outside 1..16, in any dimension,
  the dispatch runs no kernel and leaves the matrix it is given as it is; the driver
  raises no error and returns the freshly created matrix, eliminated and finalized: it
  stores no entry, so every entry reads as zero.
\<close>

theorem unsupported_order:
  assumes "UsesTensorBasis fes_ho"
    and "GetMaxElementOrder fes_ho < 1 \<or> 16 < GetMaxElementOrder fes_ho"
  shows "AssembleBatchedLOR ir form_lor fes_ho ess_dofs
           = Inr (Finalize (eliminate ess_dofs
                   (SparseMatrix_new (GetTrueVSize fes_ho) (GetTrueVSize fes_ho))))
         \<and> dispatch ir (Dimension (GetMesh fes_ho)) (GetMaxElementOrder fes_ho)
              (GetMesh (FESpace form_lor)) (GetMesh fes_ho) fes_ho A = Some A
         \<and> (\<forall>M. AssembleBatchedLOR ir form_lor fes_ho ess_dofs = Inr M \<longrightarrow>
              entries M = Map.empty \<and> finalized M \<and> (\<forall>i j. Elem M i j = 0))"
  using assms
  by (auto simp: AssembleBatchedLOR_def Let_def dispatch_unsupported Finalize_def
      entries_eliminate_new Elem_def)

theorem unsupported_order_witness:
  "UsesTensorBasis (square_fes\<lparr>GetMaxElementOrder := 17\<rparr>)
   \<and> 16 < GetMaxElementOrder (square_fes\<lparr>GetMaxElementOrder := 17\<rparr>)
   \<and> AssembleBatchedLOR square_ir square_form (square_fes\<lparr>GetMaxElementOrder := 17\<rparr>) [0]
       = Inr (Finalize (eliminate [0] (SparseMatrix_new 4 4)))"
  using unsupported_order [of "square_fes\<lparr>GetMaxElementOrder := 17\<rparr>" square_ir square_form "[0]"]
  by (simp add: square_fes_def)

text \<open>
  C8. When the space does not use a tensor basis the call fails with the message of the
  check, whatever the other arguments are: nothing is allocated, no kernel runs and no
  matrix is returned. When it does, the call never fails with that message, and its
  result is that of the rest of the driver: allocation, dispatch, elimination,
  finalization.
\<close>

theorem tensor_basis_check:
  "(\<not> UsesTensorBasis fes_ho \<longrightarrow>
      AssembleBatchedLOR ir form_lor fes_ho ess_dofs
        = Inl (VerifyFailed ''Batched LOR assembly requires tensor basis''))
   \<and> (UsesTensorBasis fes_ho \<longrightarrow>
      (\<forall>m. AssembleBatchedLOR ir form_lor fes_ho ess_dofs \<noteq> Inl (VerifyFailed m))
      \<and> AssembleBatchedLOR ir form_lor fes_ho ess_dofs
        = (case dispatch ir (Dimension (GetMesh fes_ho)) (GetMaxElementOrder fes_ho)
                  (GetMesh (FESpace form_lor)) (GetMesh fes_ho) fes_ho
                  (SparseMatrix_new (GetTrueVSize fes_ho) (GetTrueVSize fes_ho)) of
             None \<Rightarrow> Inl OutOfRange
           | Some A_mat \<Rightarrow> Inr (Finalize (eliminate ess_dofs A_mat))))"
  by (auto simp: AssembleBatchedLOR_def Let_def split: option.splits)

theorem tensor_basis_check_witness:
  "AssembleBatchedLOR square_ir square_form (square_fes\<lparr>UsesTensorBasis := False\<rparr>) []
     = Inl (VerifyFailed ''Batched LOR assembly requires tensor basis'')
   \<and> AssembleBatchedLOR square_ir square_form (square_fes\<lparr>GetMaxElementOrder := 0\<rparr>) []
     = Inr (Finalize (SparseMatrix_new 4 4))"
  using tensor_basis_check [of "square_fes\<lparr>UsesTensorBasis := False\<rparr>" square_ir square_form "[]"]
    tensor_basis_check [of "square_fes\<lparr>GetMaxElementOrder := 0\<rparr>" square_ir square_form "[]"]
  by (simp add: square_fes_def square_mesh_def dispatch_def eliminate_def)

subsection \<open>The 3D assembly loops\<close>

lemma loops3_inv:
  assumes "for_loop xs (\<lambda>a. for_loop ys (\<lambda>b. for_loop zs (body a b))) s = Some s'"
    and "P s"
    and "\<And>a b c t t'. a \<in> set xs \<Longrightarrow> b \<in> set ys \<Longrightarrow> c \<in> set zs \<Longrightarrow> P t
           \<Longrightarrow> body a b c t = Some t' \<Longrightarrow> P t'"
  shows "P s'"
proof -
  have inner: "P u'"
    if "a \<in> set xs" "b \<in> set ys" "P u" and "for_loop zs (body a b) u = Some u'" for a b u u'
    by (rule for_loop_inv [of zs "body a b" u u' P]) (use that assms(3) in auto)
  have mid: "P t'"
    if "a \<in> set xs" "P t" and "for_loop ys (\<lambda>b. for_loop zs (body a b)) t = Some t'"
    for a t t'
    by (rule for_loop_inv [of ys "\<lambda>b. for_loop zs (body a b)" t t' P]) (use that inner in auto)
  show ?thesis
    by (rule for_loop_inv [of xs "\<lambda>a. for_loop ys (\<lambda>b. for_loop zs (body a b))" s s' P])
       (use assms(1,2) mid in auto)
qed

lemma loops3_total:
  assumes "P s"
    and "\<And>a b c t. a \<in> set xs \<Longrightarrow> b \<in> set ys \<Longrightarrow> c \<in> set zs \<Longrightarrow> P t
           \<Longrightarrow> \<exists>t'. body a b c t = Some t' \<and> P t'"
  shows "\<exists>s'. for_loop xs (\<lambda>a. for_loop ys (\<lambda>b. for_loop zs (body a b))) s = Some s' \<and> P s'"
proof -
  have inner: "\<exists>u'. for_loop zs (body a b) u = Some u' \<and> P u'"
    if "a \<in> set xs" "b \<in> set ys" "P u" for a b u
    by (rule for_loop_total [of P u zs "body a b"]) (use that assms(2) in auto)
  have mid: "\<exists>t'. for_loop ys (\<lambda>b. for_loop zs (body a b)) t = Some t' \<and> P t'"
    if "a \<in> set xs" "P t" for a t
    by (rule for_loop_total [of P t ys "\<lambda>b. for_loop zs (body a b)"]) (use that inner in auto)
  show ?thesis
    by (rule for_loop_total [of P s xs "\<lambda>a. for_loop ys (\<lambda>b. for_loop zs (body a b))"])
       (use assms(1) mid in auto)
qed

lemma loops3_rel:
  assumes "R s t"
    and "\<And>a b c s t. a \<in> set xs \<Longrightarrow> b \<in> set ys \<Longrightarrow> c \<in> set zs \<Longrightarrow> R s t
           \<Longrightarrow> rel_option R (f a b c s) (g a b c t)"
  shows "rel_option R (for_loop xs (\<lambda>a. for_loop ys (\<lambda>b. for_loop zs (f a b))) s)
                      (for_loop xs (\<lambda>a. for_loop ys (\<lambda>b. for_loop zs (g a b))) t)"
proof -
  have inner: "rel_option R (for_loop zs (f a b) u) (for_loop zs (g a b) v)"
    if "a \<in> set xs" "b \<in> set ys" "R u v" for a b u v
    by (rule for_loop_rel [of R u v zs "f a b" "g a b"]) (use that assms(2) in auto)
  have mid: "rel_option R (for_loop ys (\<lambda>b. for_loop zs (f a b)) u)
                          (for_loop ys (\<lambda>b. for_loop zs (g a b)) v)"
    if "a \<in> set xs" "R u v" for a u v
    by (rule for_loop_rel [of R u v ys "\<lambda>b. for_loop zs (f a b)" "\<lambda>b. for_loop zs (g a b)"])
       (use that inner in auto)
  show ?thesis
    by (rule for_loop_rel [of R s t xs "\<lambda>a. for_loop ys (\<lambda>b. for_loop zs (f a b))"
          "\<lambda>a. for_loop ys (\<lambda>b. for_loop zs (g a b))"])
       (use assms(1) mid in auto)
qed

lemma test3D_frame:
  "test3D nd1d dofs lex_map kx ky kz iqx iqy iqz Jm gj jj_loc iz iy ix s = Some s'
     \<Longrightarrow> A_mat_ref s' = A_mat_ref s \<and> length (local_mat s') = length (local_mat s)"
  by (auto simp: test3D_def Let_def wr_def split: prod.splits Option.bind_splits if_splits)

lemma trial3D_frame:
  assumes "trial3D nd1d dofs lex_map kx ky kz iqx iqy iqz Jm jz jy jx s = Some s'"
  shows "A_mat_ref s' = A_mat_ref s \<and> length (local_mat s') = length (local_mat s)"
proof -
  from assms obtain gj jj_loc where
    l: "for_loop (irange 0 2) (\<lambda>iz. for_loop (irange 0 2) (\<lambda>iy. for_loop (irange 0 2)
          (test3D nd1d dofs lex_map kx ky kz iqx iqy iqz Jm gj jj_loc iz iy))) s = Some s'"
    by (auto simp: trial3D_def Let_def split: Option.bind_splits)
  show ?thesis
    by (rule loops3_inv [OF l, where P = "\<lambda>t. A_mat_ref t = A_mat_ref s \<and> length (local_mat t) = length (local_mat s)"])
       (auto dest: test3D_frame)
qed

lemma quad3D_frame:
  assumes "quad3D order nq dimn invJ nd1d dofs lex_map iel_ho k kx ky kz iqz iqy iqx s = Some s'"
  shows "A_mat_ref s' = A_mat_ref s \<and> length (local_mat s') = length (local_mat s)"
proof -
  from assms obtain Jm where
    l: "for_loop (irange 0 2) (\<lambda>jz. for_loop (irange 0 2) (\<lambda>jy. for_loop (irange 0 2)
          (trial3D nd1d dofs lex_map kx ky kz iqx iqy iqz Jm jz jy))) s = Some s'"
    by (auto simp: quad3D_def Let_def split: Option.bind_splits)
  show ?thesis
    by (rule loops3_inv [OF l, where P = "\<lambda>t. A_mat_ref t = A_mat_ref s \<and> length (local_mat t) = length (local_mat s)"])
       (auto dest: trial3D_frame)
qed

lemma subcell3D_frame:
  assumes "subcell3D order nq dimn invJ nd1d dofs lex_map iel_ho kz ky kx s = Some s'"
  shows "A_mat_ref s' = A_mat_ref s \<and> length (local_mat s') = length (local_mat s)"
proof -
  let ?s0 = "s\<lparr>local_mat := map (\<lambda>_. 0) (local_mat s)\<rparr>"
  from assms have
    l: "for_loop (irange 0 2) (\<lambda>iqz. for_loop (irange 0 2) (\<lambda>iqy. for_loop (irange 0 2)
          (quad3D order nq dimn invJ nd1d dofs lex_map iel_ho (kx + ky * order + kz * order * order)
             kx ky kz iqz iqy))) ?s0 = Some s'"
    by (simp add: subcell3D_def Let_def)
  show ?thesis
    by (rule loops3_inv [OF l, where P = "\<lambda>t. A_mat_ref t = A_mat_ref s \<and> length (local_mat t) = length (local_mat s)"])
       (auto dest: quad3D_frame)
qed

lemma element3D_frame:
  assumes "element3D order nq dimn invJ fes_ho iel_ho s = Some s'"
  shows "A_mat_ref s' = A_mat_ref s \<and> length (local_mat s') = length (local_mat s)"
proof -
  from assms obtain dofs where
    l: "for_loop (irange 0 order) (\<lambda>kz. for_loop (irange 0 order) (\<lambda>ky. for_loop (irange 0 order)
          (subcell3D order nq dimn invJ (order + 1) dofs (GetLexicographicOrdering fes_ho)
             iel_ho kz ky))) s = Some s'"
    by (auto simp: element3D_def split: Option.bind_splits)
  show ?thesis
    by (rule loops3_inv [OF l, where P = "\<lambda>t. A_mat_ref t = A_mat_ref s \<and> length (local_mat t) = length (local_mat s)"])
       (auto dest: subcell3D_frame)
qed

lemma Assemble3DBatchedLOR_frame:
  assumes "Assemble3DBatchedLOR order ir mesh_lor mesh_ho fes_ho A = Some A'"
  shows "A' = A"
proof -
  from assms obtain invJ s where
    l: "for_loop (irange 0 (GetNE mesh_ho))
          (element3D order (int (length ir)) (Dimension mesh_ho) invJ fes_ho)
          \<lparr>A_mat_ref = A, local_mat = replicate 64 0\<rparr> = Some s"
    and s: "A' = A_mat_ref s"
    by (auto simp: Assemble3DBatchedLOR_def split: Option.bind_splits)
  have "A_mat_ref s = A"
    by (rule for_loop_inv [OF l, where P = "\<lambda>t. A_mat_ref t = A"]) (auto dest: element3D_frame)
  then show ?thesis using s by simp
qed


lemma set_irange02: "set (irange 0 2) = {0, 1}"
  by (auto simp: set_irange)

lemma test3D_total:
  assumes "length (local_mat s) = 64" and "corners_ok nd1d dofs lex_map kx ky kz"
    and "ix \<in> set (irange 0 2)" "iy \<in> set (irange 0 2)" "iz \<in> set (irange 0 2)"
    and "0 \<le> jj_loc" "jj_loc < 8"
  shows "\<exists>s'. test3D nd1d dofs lex_map kx ky kz iqx iqy iqz Jm gj jj_loc iz iy ix s = Some s'
           \<and> length (local_mat s') = 64"
proof -
  from assms(2-5) obtain l d where
    "rd lex_map ((ix + kx) + (iy + ky) * nd1d + (iz + kz) * nd1d * nd1d) = Some l"
    "rd dofs l = Some d"
    unfolding corners_ok_def by (fastforce split: option.splits)
  moreover have "0 \<le> ix + 2 * iy + 4 * iz + 8 * jj_loc" "ix + 2 * iy + 4 * iz + 8 * jj_loc < 64"
    using assms(3-7) by (auto simp: set_irange02)
  ultimately show ?thesis
    using assms(1)
    by (cases Jm; cases gj) (simp add: test3D_def Let_def rd_def wr_def)
qed

lemma trial3D_total:
  assumes "length (local_mat s) = 64" and "corners_ok nd1d dofs lex_map kx ky kz"
    and "jx \<in> set (irange 0 2)" "jy \<in> set (irange 0 2)" "jz \<in> set (irange 0 2)"
  shows "\<exists>s'. trial3D nd1d dofs lex_map kx ky kz iqx iqy iqz Jm jz jy jx s = Some s'
           \<and> length (local_mat s') = 64"
proof -
  from assms(2-5) obtain l d where r:
    "rd lex_map ((jx + kx) + (jy + ky) * nd1d + (jz + kz) * nd1d * nd1d) = Some l"
    "rd dofs l = Some d"
    unfolding corners_ok_def by (fastforce split: option.splits)
  have j: "0 \<le> jx + 2 * jy + 4 * jz" "jx + 2 * jy + 4 * jz < 8"
    using assms(3-5) by (auto simp: set_irange02)
  have "\<exists>s'. for_loop (irange 0 2) (\<lambda>iz. for_loop (irange 0 2) (\<lambda>iy. for_loop (irange 0 2)
          (test3D nd1d dofs lex_map kx ky kz iqx iqy iqz Jm gj (jx + 2 * jy + 4 * jz) iz iy))) s
            = Some s' \<and> length (local_mat s') = 64" for gj
    by (rule loops3_total [where P = "\<lambda>t. length (local_mat t) = 64"])
       (use assms(1,2) j in \<open>auto intro: test3D_total\<close>)
  then show ?thesis
    using r by (simp add: trial3D_def Let_def)
qed

lemma quad3D_total:
  assumes "length (local_mat s) = 64" and "corners_ok nd1d dofs lex_map kx ky kz"
    and "slots_ok order nq dimn invJ k iel_ho"
    and "iqx \<in> set (irange 0 2)" "iqy \<in> set (irange 0 2)" "iqz \<in> set (irange 0 2)"
  shows "\<exists>s'. quad3D order nq dimn invJ nd1d dofs lex_map iel_ho k kx ky kz iqz iqy iqx s = Some s'
           \<and> length (local_mat s') = 64"
proof -
  have iq: "iqx + 2 * iqy + 4 * iqz \<in> set (irange 0 8)"
    using assms(4-6) by (auto simp: set_irange)
  have m: "(0::int) \<in> set (irange 0 6)" "(1::int) \<in> set (irange 0 6)"
    "(2::int) \<in> set (irange 0 6)" "(3::int) \<in> set (irange 0 6)"
    "(4::int) \<in> set (irange 0 6)" "(5::int) \<in> set (irange 0 6)"
    by (simp_all add: set_irange)
  have c: "\<exists>v. ld invJ (ind4 ((dimn * (dimn + 1)) div 2) nq (order ^ nat dimn) c
               (iqx + 2 * iqy + 4 * iqz) k iel_ho) = Some v"
    if "c \<in> set (irange 0 6)" for c
    using assms(3) iq that unfolding slots_ok_def by blast
  then obtain J0 J1 J2 J3 J4 J5 where J:
    "ld invJ (ind4 ((dimn * (dimn + 1)) div 2) nq (order ^ nat dimn) 0 (iqx + 2 * iqy + 4 * iqz) k iel_ho) = Some J0"
    "ld invJ (ind4 ((dimn * (dimn + 1)) div 2) nq (order ^ nat dimn) 1 (iqx + 2 * iqy + 4 * iqz) k iel_ho) = Some J1"
    "ld invJ (ind4 ((dimn * (dimn + 1)) div 2) nq (order ^ nat dimn) 2 (iqx + 2 * iqy + 4 * iqz) k iel_ho) = Some J2"
    "ld invJ (ind4 ((dimn * (dimn + 1)) div 2) nq (order ^ nat dimn) 3 (iqx + 2 * iqy + 4 * iqz) k iel_ho) = Some J3"
    "ld invJ (ind4 ((dimn * (dimn + 1)) div 2) nq (order ^ nat dimn) 4 (iqx + 2 * iqy + 4 * iqz) k iel_ho) = Some J4"
    "ld invJ (ind4 ((dimn * (dimn + 1)) div 2) nq (order ^ nat dimn) 5 (iqx + 2 * iqy + 4 * iqz) k iel_ho) = Some J5"
    using c [OF m(1)] c [OF m(2)] c [OF m(3)] c [OF m(4)] c [OF m(5)] c [OF m(6)]
    by blast
  have "\<exists>s'. for_loop (irange 0 2) (\<lambda>jz. for_loop (irange 0 2) (\<lambda>jy. for_loop (irange 0 2)
          (trial3D nd1d dofs lex_map kx ky kz iqx iqy iqz Jm jz jy))) s
            = Some s' \<and> length (local_mat s') = 64" for Jm
    by (rule loops3_total [where P = "\<lambda>t. length (local_mat t) = 64"])
       (use assms(1,2) in \<open>auto intro: trial3D_total\<close>)
  then show ?thesis
    using J by (simp add: quad3D_def Let_def)
qed

lemma subcell3D_total:
  assumes "length (local_mat s) = 64" and "corners_ok nd1d dofs lex_map kx ky kz"
    and "slots_ok order nq dimn invJ (kx + ky * order + kz * order * order) iel_ho"
  shows "\<exists>s'. subcell3D order nq dimn invJ nd1d dofs lex_map iel_ho kz ky kx s = Some s'
           \<and> length (local_mat s') = 64"
  unfolding subcell3D_def Let_def
  by (rule loops3_total [where P = "\<lambda>t. length (local_mat t) = 64"])
     (use assms in \<open>auto intro: quad3D_total\<close>)


lemma element3D_total:
  assumes "length (local_mat s) = 64" and "element_ok order nq dimn invJ fes_ho iel_ho"
  shows "\<exists>s'. element3D order nq dimn invJ fes_ho iel_ho s = Some s'
           \<and> length (local_mat s') = 64"
proof -
  from assms(2) obtain dofs where d: "rd (GetElementDofs fes_ho) iel_ho = Some dofs"
    and ok: "\<And>kz ky kx. kz \<in> set (irange 0 order) \<Longrightarrow> ky \<in> set (irange 0 order)
                \<Longrightarrow> kx \<in> set (irange 0 order)
                \<Longrightarrow> corners_ok (order + 1) dofs (GetLexicographicOrdering fes_ho) kx ky kz
                    \<and> slots_ok order nq dimn invJ (kx + ky * order + kz * order * order) iel_ho"
    unfolding element_ok_def by (auto split: option.splits)
  have "\<exists>s'. for_loop (irange 0 order) (\<lambda>kz. for_loop (irange 0 order) (\<lambda>ky.
          for_loop (irange 0 order)
            (subcell3D order nq dimn invJ (order + 1) dofs (GetLexicographicOrdering fes_ho)
               iel_ho kz ky))) s = Some s' \<and> length (local_mat s') = 64"
    by (rule loops3_total [where P = "\<lambda>t. length (local_mat t) = 64"])
       (use assms(1) ok in \<open>auto intro: subcell3D_total\<close>)
  then show ?thesis
    using d by (simp add: element3D_def)
qed

lemma Assemble3DBatchedLOR_total:
  assumes "geom3D order ir mesh_lor mesh_ho = Some invJ"
    and "\<forall>iel_ho\<in>set (irange 0 (GetNE mesh_ho)).
           element_ok order (int (length ir)) (Dimension mesh_ho) invJ fes_ho iel_ho"
  shows "Assemble3DBatchedLOR order ir mesh_lor mesh_ho fes_ho A = Some A"
proof -
  have "\<exists>s'. for_loop (irange 0 (GetNE mesh_ho))
          (element3D order (int (length ir)) (Dimension mesh_ho) invJ fes_ho)
          \<lparr>A_mat_ref = A, local_mat = replicate 64 0\<rparr> = Some s'
          \<and> length (local_mat s') = 64"
    by (rule for_loop_total [where P = "\<lambda>t. length (local_mat t) = 64"])
       (use assms(2) in \<open>auto intro: element3D_total\<close>)
  then obtain A' where "Assemble3DBatchedLOR order ir mesh_lor mesh_ho fes_ho A = Some A'"
    using assms(1) by (auto simp: Assemble3DBatchedLOR_def)
  then show ?thesis
    using Assemble3DBatchedLOR_frame by blast
qed

lemma test3D_rel:
  assumes "local_mat s = local_mat t"
  shows "rel_option (\<lambda>s t. local_mat s = local_mat t)
           (test3D nd1d dofs lex_map kx ky kz iqx iqy iqz Jm gj jj_loc iz iy ix s)
           (test3D nd1d dofs lex_map kx ky kz iqx iqy iqz Jm gj jj_loc iz iy ix t)"
  using assms
  by (cases Jm; cases gj)
     (auto simp: test3D_def Let_def split: Option.bind_split split del: if_split)

lemma trial3D_rel:
  assumes "local_mat s = local_mat t"
  shows "rel_option (\<lambda>s t. local_mat s = local_mat t)
           (trial3D nd1d dofs lex_map kx ky kz iqx iqy iqz Jm jz jy jx s)
           (trial3D nd1d dofs lex_map kx ky kz iqx iqy iqz Jm jz jy jx t)"
proof -
  have "rel_option (\<lambda>s t. local_mat s = local_mat t)
     (for_loop (irange 0 2) (\<lambda>iz. for_loop (irange 0 2) (\<lambda>iy. for_loop (irange 0 2)
        (test3D nd1d dofs lex_map kx ky kz iqx iqy iqz Jm gj jj_loc iz iy))) s)
     (for_loop (irange 0 2) (\<lambda>iz. for_loop (irange 0 2) (\<lambda>iy. for_loop (irange 0 2)
        (test3D nd1d dofs lex_map kx ky kz iqx iqy iqz Jm gj jj_loc iz iy))) t)" for gj jj_loc
    by (rule loops3_rel) (use assms in \<open>auto intro: test3D_rel\<close>)
  then show ?thesis
    by (auto simp: trial3D_def Let_def split: Option.bind_split split del: if_split)
qed

lemma quad3D_rel:
  assumes "local_mat s = local_mat t"
    and "\<forall>c\<in>set (irange 0 6).
           ld invJ (ind4 ((dimn * (dimn + 1)) div 2) nq (order ^ nat dimn) c
                      (iqx + 2 * iqy + 4 * iqz) k iel_ho)
           = ld invJ' (ind4 ((dimn * (dimn + 1)) div 2) nq (order ^ nat dimn) c
                      (iqx + 2 * iqy + 4 * iqz) k iel_ho)"
  shows "rel_option (\<lambda>s t. local_mat s = local_mat t)
           (quad3D order nq dimn invJ nd1d dofs lex_map iel_ho k kx ky kz iqz iqy iqx s)
           (quad3D order nq dimn invJ' nd1d dofs lex_map iel_ho k kx ky kz iqz iqy iqx t)"
proof -
  have m: "(0::int) \<in> set (irange 0 6)" "(1::int) \<in> set (irange 0 6)"
    "(2::int) \<in> set (irange 0 6)" "(3::int) \<in> set (irange 0 6)"
    "(4::int) \<in> set (irange 0 6)" "(5::int) \<in> set (irange 0 6)"
    by (simp_all add: set_irange)
  note e = assms(2) [rule_format, OF m(1)] assms(2) [rule_format, OF m(2)]
    assms(2) [rule_format, OF m(3)] assms(2) [rule_format, OF m(4)]
    assms(2) [rule_format, OF m(5)] assms(2) [rule_format, OF m(6)]
  have "rel_option (\<lambda>s t. local_mat s = local_mat t)
     (for_loop (irange 0 2) (\<lambda>jz. for_loop (irange 0 2) (\<lambda>jy. for_loop (irange 0 2)
        (trial3D nd1d dofs lex_map kx ky kz iqx iqy iqz Jm jz jy))) s)
     (for_loop (irange 0 2) (\<lambda>jz. for_loop (irange 0 2) (\<lambda>jy. for_loop (irange 0 2)
        (trial3D nd1d dofs lex_map kx ky kz iqx iqy iqz Jm jz jy))) t)" for Jm
    by (rule loops3_rel) (use assms(1) in \<open>auto intro: trial3D_rel\<close>)
  then show ?thesis
    unfolding quad3D_def Let_def e
    by (auto split: Option.bind_split)
qed

lemma subcell3D_rel:
  assumes "length (local_mat s) = length (local_mat t)"
    and "\<forall>iq\<in>set (irange 0 8). \<forall>c\<in>set (irange 0 6).
           ld invJ (ind4 ((dimn * (dimn + 1)) div 2) nq (order ^ nat dimn) c iq
                      (kx + ky * order + kz * order * order) iel_ho)
           = ld invJ' (ind4 ((dimn * (dimn + 1)) div 2) nq (order ^ nat dimn) c iq
                      (kx + ky * order + kz * order * order) iel_ho)"
  shows "rel_option (\<lambda>s t. local_mat s = local_mat t)
           (subcell3D order nq dimn invJ nd1d dofs lex_map iel_ho kz ky kx s)
           (subcell3D order nq dimn invJ' nd1d dofs lex_map iel_ho kz ky kx t)"
  unfolding subcell3D_def Let_def
proof (rule loops3_rel)
  show "local_mat (s\<lparr>local_mat := map (\<lambda>_. 0) (local_mat s)\<rparr>)
        = local_mat (t\<lparr>local_mat := map (\<lambda>_. 0) (local_mat t)\<rparr>)"
    using assms(1) by (simp add: map_replicate_const)
next
  fix iqz iqy iqx :: int and u v :: "'a state3D"
  assume q: "iqz \<in> set (irange 0 2)" "iqy \<in> set (irange 0 2)" "iqx \<in> set (irange 0 2)"
    and uv: "local_mat u = local_mat v"
  have "iqx + 2 * iqy + 4 * iqz \<in> set (irange 0 8)"
    using q by (auto simp: set_irange)
  with assms(2) have
    "\<forall>c\<in>set (irange 0 6).
       ld invJ (ind4 ((dimn * (dimn + 1)) div 2) nq (order ^ nat dimn) c
                  (iqx + 2 * iqy + 4 * iqz) (kx + ky * order + kz * order * order) iel_ho)
       = ld invJ' (ind4 ((dimn * (dimn + 1)) div 2) nq (order ^ nat dimn) c
                  (iqx + 2 * iqy + 4 * iqz) (kx + ky * order + kz * order * order) iel_ho)"
    by blast
  with uv
  show "rel_option (\<lambda>s t. local_mat s = local_mat t)
          (quad3D order nq dimn invJ nd1d dofs lex_map iel_ho
             (kx + ky * order + kz * order * order) kx ky kz iqz iqy iqx u)
          (quad3D order nq dimn invJ' nd1d dofs lex_map iel_ho
             (kx + ky * order + kz * order * order) kx ky kz iqz iqy iqx v)"
    by (rule quad3D_rel)
qed

lemma subcell3D_local:
  assumes "length (local_mat s) = length (local_mat t)"
    and "\<forall>iq\<in>set (irange 0 8). \<forall>c\<in>set (irange 0 6).
           ld invJ (ind4 ((dimn * (dimn + 1)) div 2) nq (order ^ nat dimn) c iq
                      (kx + ky * order + kz * order * order) iel_ho)
           = ld invJ' (ind4 ((dimn * (dimn + 1)) div 2) nq (order ^ nat dimn) c iq
                      (kx + ky * order + kz * order * order) iel_ho)"
  shows "map_option local_mat (subcell3D order nq dimn invJ nd1d dofs lex_map iel_ho kz ky kx s)
       = map_option local_mat (subcell3D order nq dimn invJ' nd1d dofs lex_map iel_ho kz ky kx t)"
proof -
  let ?X = "subcell3D order nq dimn invJ nd1d dofs lex_map iel_ho kz ky kx s"
  let ?Y = "subcell3D order nq dimn invJ' nd1d dofs lex_map iel_ho kz ky kx t"
  have "rel_option (\<lambda>s t. local_mat s = local_mat t) ?X ?Y"
    by (rule subcell3D_rel [OF assms])
  then show ?thesis
    by (cases ?X; cases ?Y) simp_all
qed

text \<open>
  C10. Line 375 resets the local matrix at the start of every sub-cell iteration: the
  local matrix a sub-cell iteration leaves is the same whatever the local matrix held
  before, and the same for two metric buffers that agree on the 48 slots of that
  sub-cell (6 components at each of its 8 quadrature points), whatever they hold
  elsewhere. Whether the iteration returns does not depend on them either.
\<close>

theorem local_matrix_reset:
  assumes "length (local_mat s) = length (local_mat t)"
    and "\<forall>iq\<in>set (irange 0 8). \<forall>c\<in>set (irange 0 6).
           ld invJ (ind4 ((dimn * (dimn + 1)) div 2) nq (order ^ nat dimn) c iq
                      (kx + ky * order + kz * order * order) iel_ho)
           = ld invJ' (ind4 ((dimn * (dimn + 1)) div 2) nq (order ^ nat dimn) c iq
                      (kx + ky * order + kz * order * order) iel_ho)"
  shows "map_option local_mat (subcell3D order nq dimn invJ nd1d dofs lex_map iel_ho kz ky kx s)
       = map_option local_mat (subcell3D order nq dimn invJ' nd1d dofs lex_map iel_ho kz ky kx t)"
  using assms by (rule subcell3D_local)

lemma irange02: "irange 0 2 = [0, 1]"
  by (simp add: irange_def upto.simps)

lemma irange01: "irange 0 1 = [0]"
  by (simp add: irange_def upto.simps)

lemma ld_append: "0 \<le> i \<Longrightarrow> i < int (length xs) \<Longrightarrow> ld (xs @ ys) i = ld xs i"
  by (auto simp: ld_def rd_def nth_append)

lemma ld_not_None: "0 \<le> i \<Longrightarrow> i < int (length xs) \<Longrightarrow> None \<notin> set xs \<Longrightarrow> ld xs i \<noteq> None"
proof -
  assume a: "0 \<le> i" "i < int (length xs)" "None \<notin> set xs"
  then have "xs ! nat i \<in> set xs" by (intro nth_mem) linarith
  with a obtain v where "xs ! nat i = Some v" by (cases "xs ! nat i") auto
  with a show ?thesis by (simp add: ld_def rd_def)
qed

lemma length_metric_slots: "length metric_slots = 48"
  by (simp add: metric_slots_def)

lemma metric_slots_written: "None \<notin> set metric_slots"
  by (simp add: metric_slots_def)

lemma first_subcell_slot:
  assumes "iq \<in> set (irange 0 8)" and "c \<in> set (irange 0 6)"
  shows "0 \<le> ind4 ((3 * (3 + 1)) div 2) 8 (1 ^ nat 3) c iq (0 + 0 * 1 + 0 * 1 * 1) 0"
    and "ind4 ((3 * (3 + 1)) div 2) 8 (1 ^ nat 3) c iq (0 + 0 * 1 + 0 * 1 * 1) 0 < 48"
  using assms by (auto simp: set_irange ind4_def)

lemma sheared_corners_ok:
  "corners_ok 2 [0, 1, 2, 3, 4, 5, 6, 7] [0, 1, 3, 2, 4, 5, 7, 6] 0 0 0"
  by (simp add: corners_ok_def irange02 rd_def)

theorem local_matrix_reset_witness:
  "length (local_mat stale_state) = length (local_mat fresh_state)
   \<and> local_mat stale_state \<noteq> local_mat fresh_state
   \<and> rd buffer_a 48 \<noteq> rd buffer_b 48
   \<and> subcell3D 1 8 3 buffer_a 2 [0, 1, 2, 3, 4, 5, 6, 7] [0, 1, 3, 2, 4, 5, 7, 6] 0 0 0 0
        stale_state \<noteq> None
   \<and> map_option local_mat
        (subcell3D 1 8 3 buffer_a 2 [0, 1, 2, 3, 4, 5, 6, 7] [0, 1, 3, 2, 4, 5, 7, 6] 0 0 0 0
           stale_state)
     = map_option local_mat
        (subcell3D 1 8 3 buffer_b 2 [0, 1, 2, 3, 4, 5, 6, 7] [0, 1, 3, 2, 4, 5, 7, 6] 0 0 0 0
           fresh_state)"
proof -
  have len: "length (local_mat stale_state) = length (local_mat fresh_state)"
    by (simp add: stale_state_def fresh_state_def)
  have ne: "local_mat stale_state \<noteq> local_mat fresh_state"
    by (simp add: stale_state_def fresh_state_def)
  have diff: "rd buffer_a 48 \<noteq> rd buffer_b 48"
    by (simp add: buffer_a_def buffer_b_def rd_def nth_append length_metric_slots)
  have agree: "\<forall>iq\<in>set (irange 0 8). \<forall>c\<in>set (irange 0 6).
      ld buffer_a (ind4 ((3 * (3 + 1)) div 2) 8 (1 ^ nat 3) c iq (0 + 0 * 1 + 0 * 1 * 1) 0)
      = ld buffer_b (ind4 ((3 * (3 + 1)) div 2) 8 (1 ^ nat 3) c iq (0 + 0 * 1 + 0 * 1 * 1) 0)"
    using first_subcell_slot
    by (simp add: buffer_a_def buffer_b_def ld_append length_metric_slots)
  have slots: "slots_ok 1 8 3 buffer_a (0 + 0 * 1 + 0 * 1 * 1) 0"
    unfolding slots_ok_def buffer_a_def
    using first_subcell_slot
    by (simp add: ld_append ld_not_None length_metric_slots metric_slots_written)
  have "length (local_mat stale_state) = 64"
    by (simp add: stale_state_def)
  from subcell3D_total [OF this sheared_corners_ok slots]
  have ret: "subcell3D 1 8 3 buffer_a 2 [0, 1, 2, 3, 4, 5, 6, 7] [0, 1, 3, 2, 4, 5, 7, 6] 0 0 0 0
        stale_state \<noteq> None"
    by auto
  from local_matrix_reset [OF len agree, of 2 "[0, 1, 2, 3, 4, 5, 6, 7]" "[0, 1, 3, 2, 4, 5, 7, 6]"]
    len ne diff ret
  show ?thesis by simp
qed

subsection \<open>The metric buffer\<close>

lemma wr_length: "wr xs i v = Some ys \<Longrightarrow> length ys = length xs"
  by (auto simp: wr_def split: if_splits)

lemma rd_wr: "wr xs i v = Some ys \<Longrightarrow> rd ys j = (if j = i then Some v else rd xs j)"
  by (auto simp: wr_def rd_def split: if_splits)

lemma st_length: "st buf i v = Some buf' \<Longrightarrow> length buf' = length buf"
  by (simp add: st_def wr_length)

lemma rd_st: "st buf i v = Some buf' \<Longrightarrow> rd buf' j = (if j = i then Some (Some v) else rd buf j)"
  by (simp add: st_def rd_wr)

lemma rd_Some_nth: "rd xs i = Some v \<Longrightarrow> xs ! nat i = v"
  by (auto simp: rd_def split: if_splits)

lemma ld_rd: "rd buf i = Some (Some v) \<Longrightarrow> ld buf i = Some v"
  by (simp add: ld_def)

lemma updates_loop:
  assumes "\<And>i. i \<in> set xs \<Longrightarrow> updates (W i) (E i) (body i)"
    and "\<And>i j v. i \<in> set xs \<Longrightarrow> E i j v \<Longrightarrow> j \<in> W i"
    and "distinct xs"
    and "\<And>i i'. i \<in> set xs \<Longrightarrow> i' \<in> set xs \<Longrightarrow> i \<noteq> i' \<Longrightarrow> W i \<inter> W i' = {}"
  shows "updates (\<Union>i\<in>set xs. W i) (\<lambda>j v. \<exists>i\<in>set xs. E i j v) (for_loop xs body)"
  using assms
proof (induction xs)
  case Nil
  then show ?case by (simp add: updates_def)
next
  case (Cons a xs)
  have IH: "updates (\<Union>i\<in>set xs. W i) (\<lambda>j v. \<exists>i\<in>set xs. E i j v) (for_loop xs body)"
    using Cons.prems by (intro Cons.IH) auto
  have ua: "updates (W a) (E a) (body a)"
    using Cons.prems(1) by simp
  show ?case
    unfolding updates_def
  proof (intro allI impI)
    fix t t'
    assume "for_loop (a # xs) body t = Some t'"
    then obtain t1 where t1: "body a t = Some t1" and r: "for_loop xs body t1 = Some t'"
      by (auto split: option.splits)
    from ua t1 have a1: "length t1 = length t" "\<And>j. j \<notin> W a \<Longrightarrow> rd t1 j = rd t j"
      "\<And>j v. E a j v \<Longrightarrow> rd t1 j = Some v"
      unfolding updates_def by blast+
    from IH r have a2: "length t' = length t1"
      "\<And>j. j \<notin> (\<Union>i\<in>set xs. W i) \<Longrightarrow> rd t' j = rd t1 j"
      "\<And>j v. \<exists>i\<in>set xs. E i j v \<Longrightarrow> rd t' j = Some v"
      unfolding updates_def by blast+
    have disj: "j \<notin> (\<Union>i\<in>set xs. W i)" if "j \<in> W a" for j
    proof
      assume "j \<in> (\<Union>i\<in>set xs. W i)"
      then obtain i where i: "i \<in> set xs" "j \<in> W i" by blast
      then have "i \<noteq> a" using Cons.prems(3) by auto
      then have "W a \<inter> W i = {}" using Cons.prems(4) [of a i] i by simp
      then show False using that i by blast
    qed
    have third: "rd t' j = Some v" if "\<exists>i\<in>set (a # xs). E i j v" for j v
    proof (cases "\<exists>i\<in>set xs. E i j v")
      case True
      then show ?thesis by (rule a2(3))
    next
      case False
      with that have e: "E a j v" by auto
      then have "j \<in> W a" using Cons.prems(2) by simp
      then have "rd t' j = rd t1 j" using disj a2(2) by blast
      then show ?thesis using a1(3) [OF e] by simp
    qed
    show "length t' = length t
        \<and> (\<forall>j. j \<notin> (\<Union>i\<in>set (a # xs). W i) \<longrightarrow> rd t' j = rd t j)
        \<and> (\<forall>j v. (\<exists>i\<in>set (a # xs). E i j v) \<longrightarrow> rd t' j = Some v)"
      using a1(1,2) a2(1,2) third by auto
  qed
qed

lemma updates_weaken:
  assumes "updates W E f" and "W \<subseteq> W'" and "\<And>j v. E' j v \<Longrightarrow> E j v"
  shows "updates W' E' f"
  using assms unfolding updates_def by (meson subsetD)

lemma split_index:
  fixes a b n x y :: int
  assumes "a + n * x = b + n * y" and "0 \<le> a" "a < n" "0 \<le> b" "b < n"
  shows "a = b \<and> x = y"
proof -
  have n: "n \<noteq> 0" using assms by auto
  have dx: "(a + n * x) div n = x" and dy: "(b + n * y) div n = y"
    using assms(2-5) n by simp_all
  have "x = (a + n * x) div n" by (simp only: dx)
  also have "\<dots> = (b + n * y) div n" by (simp only: assms(1))
  also have "\<dots> = y" by (rule dy)
  finally have "x = y" .
  then show ?thesis using assms(1) by simp
qed

lemma ind4_inj:
  assumes "ind4 n0 n1 n2 i0 i1 i2 i3 = ind4 n0 n1 n2 j0 j1 j2 j3"
    and "0 \<le> i0" "i0 < n0" "0 \<le> j0" "j0 < n0"
    and "0 \<le> i1" "i1 < n1" "0 \<le> j1" "j1 < n1"
    and "0 \<le> i2" "i2 < n2" "0 \<le> j2" "j2 < n2"
  shows "i0 = j0 \<and> i1 = j1 \<and> i2 = j2 \<and> i3 = j3"
proof -
  from assms(1) have e: "i0 + n0 * (i1 + n1 * (i2 + n2 * i3)) = j0 + n0 * (j1 + n1 * (j2 + n2 * j3))"
    by (simp add: ind4_def)
  from split_index [OF e assms(2-5)]
  have 0: "i0 = j0" and e1: "i1 + n1 * (i2 + n2 * i3) = j1 + n1 * (j2 + n2 * j3)" by auto
  from split_index [OF e1 assms(6-9)]
  have 1: "i1 = j1" and e2: "i2 + n2 * i3 = j2 + n2 * j3" by auto
  from split_index [OF e2 assms(10-13)] 0 1 show ?thesis by simp
qed

lemma cell_slots_I:
  assumes "0 \<le> c" "c < ncomp" "0 \<le> iq" "iq < nq"
  shows "ind4 nc nq nsub c iq (matrix e) (parent e) \<in> cell_slots nc nq nsub ncomp (Some e)"
  unfolding cell_slots_def option.case mem_Collect_eq
  by (rule exI [of _ c], rule exI [of _ iq]) (use assms in simp)

lemma cell_slots_disjoint:
  assumes "ncomp \<le> nc"
    and "0 \<le> matrix e" "matrix e < nsub" "0 \<le> matrix e'" "matrix e' < nsub"
    and "(parent e, matrix e) \<noteq> (parent e', matrix e')"
  shows "cell_slots nc nq nsub ncomp (Some e) \<inter> cell_slots nc nq nsub ncomp (Some e') = {}"
proof (rule ccontr)
  assume "cell_slots nc nq nsub ncomp (Some e) \<inter> cell_slots nc nq nsub ncomp (Some e') \<noteq> {}"
  then obtain c iq c' iq' where
    eq: "ind4 nc nq nsub c iq (matrix e) (parent e) = ind4 nc nq nsub c' iq' (matrix e') (parent e')"
    and r: "0 \<le> c" "c < ncomp" "0 \<le> iq" "iq < nq" "0 \<le> c'" "c' < ncomp" "0 \<le> iq'" "iq' < nq"
    by (auto simp: cell_slots_def)
  have "c < nc" "c' < nc" using r assms(1) by auto
  from ind4_inj [OF eq r(1) this(1) r(5) this(2) r(3,4,7,8) assms(2-5)]
  show False using assms(6) by simp
qed

lemma point_slots_disjoint:
  assumes "ncomp \<le> nc" and "iq \<noteq> iq'"
  shows "{ind4 nc nq nsub c iq iref iel | c. 0 \<le> c \<and> c < ncomp}
       \<inter> {ind4 nc nq nsub c iq' iref iel | c. 0 \<le> c \<and> c < ncomp} = {}"
proof (rule ccontr)
  assume "{ind4 nc nq nsub c iq iref iel | c. 0 \<le> c \<and> c < ncomp}
       \<inter> {ind4 nc nq nsub c iq' iref iel | c. 0 \<le> c \<and> c < ncomp} \<noteq> {}"
  then obtain c c' where
    eq: "c + nc * (iq + nq * (iref + nsub * iel)) = c' + nc * (iq' + nq * (iref + nsub * iel))"
    and r: "0 \<le> c" "c < ncomp" "0 \<le> c'" "c' < ncomp"
    by (auto simp: ind4_def)
  have "c < nc" "c' < nc" using r assms(1) by auto
  from split_index [OF eq r(1) this(1) r(3) this(2)]
  show False using assms(2) by simp
qed

text \<open>The loop over the quadrature points of a cell, for any point function that writes
  the \<open>ncomp\<close> slots of its point.\<close>

lemma points_loop_updates:
  assumes "\<And>iq. iq \<in> set (irange 0 nq) \<Longrightarrow>
      updates {ind4 nc nq nsub c iq (matrix e) (parent e) | c. 0 \<le> c \<and> c < ncomp}
        (\<lambda>j v. \<exists>c. 0 \<le> c \<and> c < ncomp \<and> j = ind4 nc nq nsub c iq (matrix e) (parent e)
                   \<and> v = Some (val iq c))
        (point iq)"
    and "ncomp \<le> nc"
  shows "updates (cell_slots nc nq nsub ncomp (Some e))
           (\<lambda>j v. \<exists>iq c. 0 \<le> iq \<and> iq < nq \<and> 0 \<le> c \<and> c < ncomp
                     \<and> j = ind4 nc nq nsub c iq (matrix e) (parent e) \<and> v = Some (val iq c))
           (for_loop (irange 0 nq) point)"
proof -
  have "updates (\<Union>iq\<in>set (irange 0 nq).
                   {ind4 nc nq nsub c iq (matrix e) (parent e) | c. 0 \<le> c \<and> c < ncomp})
          (\<lambda>j v. \<exists>iq\<in>set (irange 0 nq). \<exists>c. 0 \<le> c \<and> c < ncomp
                     \<and> j = ind4 nc nq nsub c iq (matrix e) (parent e) \<and> v = Some (val iq c))
          (for_loop (irange 0 nq) point)"
    by (rule updates_loop)
       (use assms point_slots_disjoint [OF assms(2)] in \<open>auto simp: distinct_irange\<close>)
  then show ?thesis
  proof (rule updates_weaken)
    show "(\<Union>iq\<in>set (irange 0 nq).
             {ind4 nc nq nsub c iq (matrix e) (parent e) | c. 0 \<le> c \<and> c < ncomp})
      \<subseteq> cell_slots nc nq nsub ncomp (Some e)"
    proof
      fix j
      assume "j \<in> (\<Union>iq\<in>set (irange 0 nq).
                   {ind4 nc nq nsub c iq (matrix e) (parent e) | c. 0 \<le> c \<and> c < ncomp})"
      then obtain iq c where "0 \<le> c" "c < ncomp" "0 \<le> iq" "iq < nq"
        "j = ind4 nc nq nsub c iq (matrix e) (parent e)"
        by (auto simp: set_irange)
      then show "j \<in> cell_slots nc nq nsub ncomp (Some e)"
        using cell_slots_I [of c ncomp iq nq nc nsub e] by simp
    qed
  next
    fix j v
    assume "\<exists>iq c. 0 \<le> iq \<and> iq < nq \<and> 0 \<le> c \<and> c < ncomp
                     \<and> j = ind4 nc nq nsub c iq (matrix e) (parent e) \<and> v = Some (val iq c)"
    then obtain iq c where "iq \<in> set (irange 0 nq)" "0 \<le> c" "c < ncomp"
      "j = ind4 nc nq nsub c iq (matrix e) (parent e)" "v = Some (val iq c)"
      by (auto simp: set_irange)
    then show "\<exists>iq\<in>set (irange 0 nq). \<exists>c. 0 \<le> c \<and> c < ncomp
                     \<and> j = ind4 nc nq nsub c iq (matrix e) (parent e) \<and> v = Some (val iq c)"
      by blast
  qed
qed

lemma embeddings_ok_range:
  assumes "embeddings_ok nsub mesh_lor" and "i \<in> set (irange 0 (GetNE mesh_lor))"
    and "rd (embeddings mesh_lor) i = Some e"
  shows "0 \<le> matrix e \<and> matrix e < nsub"
proof -
  let ?es = "take (nat (GetNE mesh_lor)) (embeddings mesh_lor)"
  have i: "0 \<le> i" "i < GetNE mesh_lor" "i < int (length (embeddings mesh_lor))"
    and e: "e = embeddings mesh_lor ! nat i"
    using assms(2,3) by (auto simp: set_irange rd_def split: if_splits)
  have "nat i < length ?es" using i by simp
  then have "?es ! nat i \<in> set ?es" by (rule nth_mem)
  moreover have "?es ! nat i = e" using i e by simp
  ultimately show ?thesis using assms(1) by (auto simp: embeddings_ok_def Let_def)
qed

lemma embeddings_ok_distinct:
  assumes "embeddings_ok nsub mesh_lor"
    and "i \<in> set (irange 0 (GetNE mesh_lor))" "i' \<in> set (irange 0 (GetNE mesh_lor))"
    and "rd (embeddings mesh_lor) i = Some e" "rd (embeddings mesh_lor) i' = Some e'"
    and "i \<noteq> i'"
  shows "(parent e, matrix e) \<noteq> (parent e', matrix e')"
proof -
  let ?es = "take (nat (GetNE mesh_lor)) (embeddings mesh_lor)"
  let ?f = "\<lambda>e. (parent e, matrix e)"
  have i: "0 \<le> i" "i < GetNE mesh_lor" "i < int (length (embeddings mesh_lor))"
    and e: "e = embeddings mesh_lor ! nat i"
    using assms(2,4) by (auto simp: set_irange rd_def split: if_splits)
  have i': "0 \<le> i'" "i' < GetNE mesh_lor" "i' < int (length (embeddings mesh_lor))"
    and e': "e' = embeddings mesh_lor ! nat i'"
    using assms(3,5) by (auto simp: set_irange rd_def split: if_splits)
  have l: "nat i < length (map ?f ?es)" "nat i' < length (map ?f ?es)" using i i' by simp_all
  have d: "distinct (map ?f ?es)" using assms(1) by (simp add: embeddings_ok_def Let_def)
  have "nat i \<noteq> nat i'" using i i' assms(6) by simp
  then have "map ?f ?es ! nat i \<noteq> map ?f ?es ! nat i'"
    using nth_eq_iff_index_eq [OF d l] by simp
  moreover have "?es ! nat i = e" "?es ! nat i' = e'"
    using i i' e e' by simp_all
  then have "map ?f ?es ! nat i = ?f e" "map ?f ?es ! nat i' = ?f e'"
    using l by simp_all
  ultimately show ?thesis by simp
qed

text \<open>The loop over the fine cells, for any cell function that writes the slots of its cell.\<close>

lemma cells_loop_updates:
  assumes "\<And>i. i \<in> set (irange 0 (GetNE mesh_lor)) \<Longrightarrow>
      updates (cell_slots nc nq nsub ncomp (rd (embeddings mesh_lor) i)) (E i) (cell i)"
    and "\<And>i j v. E i j v \<Longrightarrow> j \<in> cell_slots nc nq nsub ncomp (rd (embeddings mesh_lor) i)"
    and "ncomp \<le> nc" and "embeddings_ok nsub mesh_lor"
  shows "updates (\<Union>i\<in>set (irange 0 (GetNE mesh_lor)).
                    cell_slots nc nq nsub ncomp (rd (embeddings mesh_lor) i))
           (\<lambda>j v. \<exists>i\<in>set (irange 0 (GetNE mesh_lor)). E i j v)
           (for_loop (irange 0 (GetNE mesh_lor)) cell)"
proof (rule updates_loop)
  fix i i'
  assume i: "i \<in> set (irange 0 (GetNE mesh_lor))" "i' \<in> set (irange 0 (GetNE mesh_lor))"
    "i \<noteq> i'"
  show "cell_slots nc nq nsub ncomp (rd (embeddings mesh_lor) i)
      \<inter> cell_slots nc nq nsub ncomp (rd (embeddings mesh_lor) i') = {}"
  proof (cases "rd (embeddings mesh_lor) i")
    case None
    then show ?thesis by (simp add: cell_slots_def)
  next
    case e: (Some e)
    show ?thesis
    proof (cases "rd (embeddings mesh_lor) i'")
      case None
      then show ?thesis by (simp add: cell_slots_def)
    next
      case e': (Some e')
      show ?thesis
        unfolding e e'
        using embeddings_ok_range [OF assms(4) i(1) e] embeddings_ok_range [OF assms(4) i(2) e']
          embeddings_ok_distinct [OF assms(4) i(1,2) e e' i(3)]
        by (intro cell_slots_disjoint [OF assms(3)]) auto
    qed
  qed
qed (use assms(1,2) in \<open>auto simp: distinct_irange\<close>)

lemma geom2D_point_updates:
  "updates {ind4 ((dimn * (dimn + 1)) div 2) nq nsub c iq iref iel_ho | c. 0 \<le> c \<and> c < 3}
     (\<lambda>j v. \<exists>c. 0 \<le> c \<and> c < 3 \<and> j = ind4 ((dimn * (dimn + 1)) div 2) nq nsub c iq iref iel_ho
                \<and> v = Some (comp3 c (point_metric2D ir J nq dimn iel_lor iq)))
     (geom2D_point ir J nq dimn nsub iel_lor iel_ho iref iq)"
  unfolding updates_def
proof (intro allI impI)
  fix t t'
  assume a: "geom2D_point ir J nq dimn nsub iel_lor iel_ho iref iq t = Some t'"
  define M where "M = point_metric2D ir J nq dimn iel_lor iq"
  obtain m0 m1 m2 where M: "M = (m0, m1, m2)" by (cases M)
  let ?s = "\<lambda>c. ind4 ((dimn * (dimn + 1)) div 2) nq nsub c iq iref iel_ho"
  from a obtain J11 J21 J12 J22 ip where
    r: "rd J (ind4 nq dimn dimn iq 0 0 iel_lor) = Some J11"
       "rd J (ind4 nq dimn dimn iq 1 0 iel_lor) = Some J21"
       "rd J (ind4 nq dimn dimn iq 0 1 iel_lor) = Some J12"
       "rd J (ind4 nq dimn dimn iq 1 1 iel_lor) = Some J22"
       "rd ir iq = Some ip"
    unfolding geom2D_point_def by (auto split: Option.bind_splits)
  have "metric2D (weight ip) J11 J21 J12 J22 = (m0, m1, m2)"
    using M r by (simp add: M_def point_metric2D_def rd_Some_nth)
  with a r obtain t1 t2 where
    s0: "st t (?s 0) m0 = Some t1" and s1: "st t1 (?s 1) m1 = Some t2"
    and s2: "st t2 (?s 2) m2 = Some t'"
    unfolding geom2D_point_def by (auto split: Option.bind_splits)
  have d: "?s 0 \<noteq> ?s 1" "?s 0 \<noteq> ?s 2" "?s 1 \<noteq> ?s 2"
    by (simp_all add: ind4_def)
  have rd': "rd t' j = (if j = ?s 2 then Some (Some m2) else if j = ?s 1 then Some (Some m1)
                       else if j = ?s 0 then Some (Some m0) else rd t j)" for j
    by (simp add: rd_st [OF s2] rd_st [OF s1] rd_st [OF s0])
  show "length t' = length t
      \<and> (\<forall>j. j \<notin> {?s c | c. 0 \<le> c \<and> c < 3} \<longrightarrow> rd t' j = rd t j)
      \<and> (\<forall>j v. (\<exists>c. 0 \<le> c \<and> c < 3 \<and> j = ?s c \<and> v = Some (comp3 c M)) \<longrightarrow> rd t' j = Some v)"
  proof (intro conjI allI impI)
    show "length t' = length t"
      using st_length [OF s0] st_length [OF s1] st_length [OF s2] by simp
  next
    fix j
    assume n: "j \<notin> {?s c | c. 0 \<le> c \<and> c < 3}"
    have "j \<noteq> ?s 0" "j \<noteq> ?s 1" "j \<noteq> ?s 2"
      using n by fastforce+
    then show "rd t' j = rd t j" by (simp add: rd')
  next
    fix j v
    assume "\<exists>c. 0 \<le> c \<and> c < 3 \<and> j = ?s c \<and> v = Some (comp3 c M)"
    then obtain c where c: "0 \<le> c" "c < 3" "j = ?s c" "v = Some (comp3 c M)" by blast
    then have "c = 0 \<or> c = 1 \<or> c = 2" by arith
    then show "rd t' j = Some v"
      using c d by (auto simp: rd' M comp3_def)
  qed
qed

lemma updates_None: "(\<And>t. f t = None) \<Longrightarrow> updates W E f"
  by (simp add: updates_def)

lemma geom2D_cell_updates:
  "updates (cell_slots 3 nq nsub 3 (rd (embeddings mesh_lor) iel_lor))
     (\<lambda>j v. \<exists>e iq c. rd (embeddings mesh_lor) iel_lor = Some e
                \<and> 0 \<le> iq \<and> iq < nq \<and> 0 \<le> c \<and> c < 3
                \<and> j = ind4 3 nq nsub c iq (matrix e) (parent e)
                \<and> v = Some (comp3 c (point_metric2D ir (geom_J mesh_lor) nq 2 iel_lor iq)))
     (geom2D_cell ir mesh_lor nq 2 nsub iel_lor)"
proof (cases "rd (embeddings mesh_lor) iel_lor")
  case None
  then show ?thesis by (intro updates_None) (simp add: geom2D_cell_def)
next
  case (Some e)
  have f: "geom2D_cell ir mesh_lor nq 2 nsub iel_lor
         = for_loop (irange 0 nq)
             (geom2D_point ir (geom_J mesh_lor) nq 2 nsub iel_lor (parent e) (matrix e))"
    by (rule ext) (simp add: geom2D_cell_def Some)
  have "updates (cell_slots 3 nq nsub 3 (Some e))
     (\<lambda>j v. \<exists>iq c. 0 \<le> iq \<and> iq < nq \<and> 0 \<le> c \<and> c < 3
                \<and> j = ind4 3 nq nsub c iq (matrix e) (parent e)
                \<and> v = Some (comp3 c (point_metric2D ir (geom_J mesh_lor) nq 2 iel_lor iq)))
     (for_loop (irange 0 nq)
        (geom2D_point ir (geom_J mesh_lor) nq 2 nsub iel_lor (parent e) (matrix e)))"
    using geom2D_point_updates [of 2 nq nsub _ "matrix e" "parent e" ir "geom_J mesh_lor" iel_lor]
    by (intro points_loop_updates) simp_all
  then show ?thesis
    unfolding f Some by (rule updates_weaken) auto
qed

lemma geom2D_stored:
  assumes g: "geom2D order ir mesh_lor mesh_ho = Some invJ"
    and d: "Dimension mesh_ho = 2"
    and ok: "embeddings_ok (order ^ 2) mesh_lor"
    and i: "0 \<le> iel_lor" "iel_lor < GetNE mesh_lor"
    and e: "rd (embeddings mesh_lor) iel_lor = Some e"
    and q: "0 \<le> iq" "iq < int (length ir)"
    and c: "0 \<le> c" "c < 3"
  shows "ld invJ (ind4 3 (int (length ir)) (order ^ 2) c iq (matrix e) (parent e))
       = Some (comp3 c (point_metric2D ir (geom_J mesh_lor) (int (length ir)) 2 iel_lor iq))"
proof -
  let ?nq = "int (length ir)"
  let ?E = "\<lambda>i j v. \<exists>e iq c. rd (embeddings mesh_lor) i = Some e
                \<and> 0 \<le> iq \<and> iq < ?nq \<and> 0 \<le> c \<and> c < 3
                \<and> j = ind4 3 ?nq (order ^ 2) c iq (matrix e) (parent e)
                \<and> v = Some (comp3 c (point_metric2D ir (geom_J mesh_lor) ?nq 2 i iq))"
  from g d obtain n where
    l: "for_loop (irange 0 (GetNE mesh_lor)) (geom2D_cell ir mesh_lor ?nq 2 (order ^ 2)) (alloc n)
          = Some invJ"
    by (simp add: geom2D_def Let_def)
  have "updates (\<Union>i\<in>set (irange 0 (GetNE mesh_lor)).
                    cell_slots 3 ?nq (order ^ 2) 3 (rd (embeddings mesh_lor) i))
           (\<lambda>j v. \<exists>i\<in>set (irange 0 (GetNE mesh_lor)). ?E i j v)
           (for_loop (irange 0 (GetNE mesh_lor)) (geom2D_cell ir mesh_lor ?nq 2 (order ^ 2)))"
  proof (rule cells_loop_updates [OF _ _ _ ok])
    fix i j v
    assume "?E i j v"
    then show "j \<in> cell_slots 3 ?nq (order ^ 2) 3 (rd (embeddings mesh_lor) i)"
      using cell_slots_I by fastforce
  qed (rule geom2D_cell_updates | simp)+
  with l have "\<And>j v. \<exists>i\<in>set (irange 0 (GetNE mesh_lor)). ?E i j v \<Longrightarrow> rd invJ j = Some v"
    unfolding updates_def by blast
  moreover have "\<exists>i\<in>set (irange 0 (GetNE mesh_lor)).
      ?E i (ind4 3 ?nq (order ^ 2) c iq (matrix e) (parent e))
           (Some (comp3 c (point_metric2D ir (geom_J mesh_lor) ?nq 2 iel_lor iq)))"
    using i e q c by (intro bexI [of _ iel_lor]) (auto simp: set_irange)
  ultimately show ?thesis
    by (intro ld_rd) blast
qed

lemma geom3D_point_updates:
  "updates {ind4 ((dimn * (dimn + 1)) div 2) nq nsub c iq iref iel_ho | c. 0 \<le> c \<and> c < 6}
     (\<lambda>j v. \<exists>c. 0 \<le> c \<and> c < 6 \<and> j = ind4 ((dimn * (dimn + 1)) div 2) nq nsub c iq iref iel_ho
                \<and> v = Some (comp6 c (point_metric3D ir vs iq)))
     (geom3D_point ir vs nq dimn nsub iel_ho iref iq)"
  unfolding updates_def
proof (intro allI impI)
  fix t t'
  assume a: "geom3D_point ir vs nq dimn nsub iel_ho iref iq t = Some t'"
  define M where "M = point_metric3D ir vs iq"
  obtain m0 m1 m2 m3 m4 m5 where M: "M = (m0, m1, m2, m3, m4, m5)" by (cases M)
  let ?s = "\<lambda>c. ind4 ((dimn * (dimn + 1)) div 2) nq nsub c iq iref iel_ho"
  from a obtain v0 v1 v2 v3 v4 v5 v6 v7 ip where
    r: "rd vs 0 = Some v0" "rd vs 1 = Some v1" "rd vs 2 = Some v2" "rd vs 3 = Some v3"
       "rd vs 4 = Some v4" "rd vs 5 = Some v5" "rd vs 6 = Some v6" "rd vs 7 = Some v7"
       "rd ir iq = Some ip"
    unfolding geom3D_point_def by (auto split: Option.bind_splits)
  have v: "vs ! 0 = v0" "vs ! 1 = v1" "vs ! 2 = v2" "vs ! 3 = v3"
    "vs ! 4 = v4" "vs ! 5 = v5" "vs ! 6 = v6" "vs ! 7 = v7" "ir ! nat iq = ip"
    using r [THEN rd_Some_nth] by simp_all
  have "metric3D (weight ip) (jacobian3D v0 v1 v2 v3 v4 v5 v6 v7 (ip_x ip) (ip_y ip) (ip_z ip))
      = (m0, m1, m2, m3, m4, m5)"
    using M unfolding M_def point_metric3D_def v .
  with a r obtain t1 t2 t3 t4 t5 where
    s0: "st t (?s 0) m0 = Some t1" and s1: "st t1 (?s 1) m1 = Some t2"
    and s2: "st t2 (?s 2) m2 = Some t3" and s3: "st t3 (?s 3) m3 = Some t4"
    and s4: "st t4 (?s 4) m4 = Some t5" and s5: "st t5 (?s 5) m5 = Some t'"
    unfolding geom3D_point_def by (auto simp: Let_def split: Option.bind_splits)
  have d: "?s a \<noteq> ?s b" if "a \<noteq> b" for a b
    using that by (simp add: ind4_def)
  have rd': "rd t' j = (if j = ?s 5 then Some (Some m5) else if j = ?s 4 then Some (Some m4)
                       else if j = ?s 3 then Some (Some m3) else if j = ?s 2 then Some (Some m2)
                       else if j = ?s 1 then Some (Some m1) else if j = ?s 0 then Some (Some m0)
                       else rd t j)" for j
    by (simp add: rd_st [OF s5] rd_st [OF s4] rd_st [OF s3] rd_st [OF s2] rd_st [OF s1]
          rd_st [OF s0])
  show "length t' = length t
      \<and> (\<forall>j. j \<notin> {?s c | c. 0 \<le> c \<and> c < 6} \<longrightarrow> rd t' j = rd t j)
      \<and> (\<forall>j v. (\<exists>c. 0 \<le> c \<and> c < 6 \<and> j = ?s c \<and> v = Some (comp6 c M)) \<longrightarrow> rd t' j = Some v)"
  proof (intro conjI allI impI)
    show "length t' = length t"
      using st_length [OF s0] st_length [OF s1] st_length [OF s2] st_length [OF s3]
        st_length [OF s4] st_length [OF s5] by simp
  next
    fix j
    assume n: "j \<notin> {?s c | c. 0 \<le> c \<and> c < 6}"
    have "j \<noteq> ?s 0" "j \<noteq> ?s 1" "j \<noteq> ?s 2" "j \<noteq> ?s 3" "j \<noteq> ?s 4" "j \<noteq> ?s 5"
      using n by fastforce+
    then show "rd t' j = rd t j" by (simp add: rd')
  next
    fix j v
    assume "\<exists>c. 0 \<le> c \<and> c < 6 \<and> j = ?s c \<and> v = Some (comp6 c M)"
    then obtain c where c: "0 \<le> c" "c < 6" "j = ?s c" "v = Some (comp6 c M)" by blast
    then have "c = 0 \<or> c = 1 \<or> c = 2 \<or> c = 3 \<or> c = 4 \<or> c = 5" by arith
    then show "rd t' j = Some v"
      using c d by (auto simp: rd' M comp6_def)
  qed
qed

lemma geom3D_cell_updates:
  "updates (cell_slots 6 nq nsub 6 (rd (embeddings mesh_lor) iel_lor))
     (\<lambda>j v. \<exists>e vs iq c. rd (embeddings mesh_lor) iel_lor = Some e
                \<and> cell_vertices mesh_lor iel_lor = Some vs
                \<and> 0 \<le> iq \<and> iq < nq \<and> 0 \<le> c \<and> c < 6
                \<and> j = ind4 6 nq nsub c iq (matrix e) (parent e)
                \<and> v = Some (comp6 c (point_metric3D ir vs iq)))
     (geom3D_cell ir mesh_lor nq 3 nsub iel_lor)"
proof (cases "rd (embeddings mesh_lor) iel_lor")
  case None
  then show ?thesis by (intro updates_None) (simp add: geom3D_cell_def)
next
  case e: (Some e)
  show ?thesis
  proof (cases "cell_vertices mesh_lor iel_lor")
    case None
    then show ?thesis by (intro updates_None) (simp add: geom3D_cell_def e)
  next
    case (Some vs)
    have f: "geom3D_cell ir mesh_lor nq 3 nsub iel_lor
           = for_loop (irange 0 nq) (geom3D_point ir vs nq 3 nsub (parent e) (matrix e))"
      by (rule ext) (simp add: geom3D_cell_def Some e)
    have "updates (cell_slots 6 nq nsub 6 (Some e))
       (\<lambda>j v. \<exists>iq c. 0 \<le> iq \<and> iq < nq \<and> 0 \<le> c \<and> c < 6
                  \<and> j = ind4 6 nq nsub c iq (matrix e) (parent e)
                  \<and> v = Some (comp6 c (point_metric3D ir vs iq)))
       (for_loop (irange 0 nq) (geom3D_point ir vs nq 3 nsub (parent e) (matrix e)))"
      using geom3D_point_updates [of 3 nq nsub _ "matrix e" "parent e" ir vs]
      by (intro points_loop_updates) simp_all
    then show ?thesis
      unfolding f Some e by (rule updates_weaken) auto
  qed
qed

lemma geom3D_stored:
  assumes g: "geom3D order ir mesh_lor mesh_ho = Some invJ"
    and d: "Dimension mesh_ho = 3"
    and ok: "embeddings_ok (order ^ 3) mesh_lor"
    and i: "0 \<le> iel_lor" "iel_lor < GetNE mesh_lor"
    and e: "rd (embeddings mesh_lor) iel_lor = Some e"
    and vs: "cell_vertices mesh_lor iel_lor = Some vs"
    and q: "0 \<le> iq" "iq < int (length ir)"
    and c: "0 \<le> c" "c < 6"
  shows "ld invJ (ind4 6 (int (length ir)) (order ^ 3) c iq (matrix e) (parent e))
       = Some (comp6 c (point_metric3D ir vs iq))"
proof -
  let ?nq = "int (length ir)"
  let ?E = "\<lambda>i j v. \<exists>e vs iq c. rd (embeddings mesh_lor) i = Some e
                \<and> cell_vertices mesh_lor i = Some vs
                \<and> 0 \<le> iq \<and> iq < ?nq \<and> 0 \<le> c \<and> c < 6
                \<and> j = ind4 6 ?nq (order ^ 3) c iq (matrix e) (parent e)
                \<and> v = Some (comp6 c (point_metric3D ir vs iq))"
  from g d obtain n where
    l: "for_loop (irange 0 (GetNE mesh_lor)) (geom3D_cell ir mesh_lor ?nq 3 (order ^ 3)) (alloc n)
          = Some invJ"
    by (simp add: geom3D_def Let_def)
  have "updates (\<Union>i\<in>set (irange 0 (GetNE mesh_lor)).
                    cell_slots 6 ?nq (order ^ 3) 6 (rd (embeddings mesh_lor) i))
           (\<lambda>j v. \<exists>i\<in>set (irange 0 (GetNE mesh_lor)). ?E i j v)
           (for_loop (irange 0 (GetNE mesh_lor)) (geom3D_cell ir mesh_lor ?nq 3 (order ^ 3)))"
  proof (rule cells_loop_updates [OF _ _ _ ok])
    fix i j v
    assume "?E i j v"
    then show "j \<in> cell_slots 6 ?nq (order ^ 3) 6 (rd (embeddings mesh_lor) i)"
      using cell_slots_I by fastforce
  qed (rule geom3D_cell_updates | simp)+
  with l have "\<And>j v. \<exists>i\<in>set (irange 0 (GetNE mesh_lor)). ?E i j v \<Longrightarrow> rd invJ j = Some v"
    unfolding updates_def by blast
  moreover have "\<exists>i\<in>set (irange 0 (GetNE mesh_lor)).
      ?E i (ind4 6 ?nq (order ^ 3) c iq (matrix e) (parent e))
           (Some (comp6 c (point_metric3D ir vs iq)))"
    using i e vs q c by (intro bexI [of _ iel_lor]) (auto simp: set_irange)
  ultimately show ?thesis
    by (intro ld_rd) blast
qed

lemma cell_vertices_length: "cell_vertices mesh_lor iel_lor = Some vs \<Longrightarrow> length vs = 8"
  by (auto simp: cell_vertices_def split: Option.bind_splits)

lemma st_total: "0 \<le> i \<Longrightarrow> i < int (length buf) \<Longrightarrow> \<exists>buf'. st buf i v = Some buf'"
  by (simp add: st_def wr_def)

lemma geom3D_point_total:
  assumes vs: "length vs = 8" and q: "iq \<in> set (irange 0 (int (length ir)))"
    and s: "\<forall>c\<in>set (irange 0 6).
              0 \<le> ind4 ((dimn * (dimn + 1)) div 2) nq nsub c iq iref iel_ho
              \<and> ind4 ((dimn * (dimn + 1)) div 2) nq nsub c iq iref iel_ho < int (length invJ)"
  shows "\<exists>invJ'. geom3D_point ir vs nq dimn nsub iel_ho iref iq invJ = Some invJ'
           \<and> length invJ' = length invJ"
proof -
  let ?s = "\<lambda>c. ind4 ((dimn * (dimn + 1)) div 2) nq nsub c iq iref iel_ho"
  have m: "(0::int) \<in> set (irange 0 6)" "(1::int) \<in> set (irange 0 6)"
    "(2::int) \<in> set (irange 0 6)" "(3::int) \<in> set (irange 0 6)"
    "(4::int) \<in> set (irange 0 6)" "(5::int) \<in> set (irange 0 6)"
    by (simp_all add: set_irange)
  note b = s [rule_format, OF m(1)] s [rule_format, OF m(2)] s [rule_format, OF m(3)]
    s [rule_format, OF m(4)] s [rule_format, OF m(5)] s [rule_format, OF m(6)]
  have r: "rd vs 0 = Some (vs ! 0)" "rd vs 1 = Some (vs ! 1)" "rd vs 2 = Some (vs ! 2)"
    "rd vs 3 = Some (vs ! 3)" "rd vs 4 = Some (vs ! 4)" "rd vs 5 = Some (vs ! 5)"
    "rd vs 6 = Some (vs ! 6)" "rd vs 7 = Some (vs ! 7)" "rd ir iq = Some (ir ! nat iq)"
    using vs q by (simp_all add: rd_def set_irange)
  define X where "X = metric3D (weight (ir ! nat iq))
       (jacobian3D (vs ! 0) (vs ! 1) (vs ! 2) (vs ! 3) (vs ! 4) (vs ! 5) (vs ! 6) (vs ! 7)
          (ip_x (ir ! nat iq)) (ip_y (ir ! nat iq)) (ip_z (ir ! nat iq)))"
  obtain m0 m1 m2 m3 m4 m5 where M: "X = (m0, m1, m2, m3, m4, m5)"
    by (cases X)
  obtain t1 where s0: "st invJ (?s 0) m0 = Some t1"
    using st_total [of "?s 0" invJ m0] b(1) by auto
  have l1: "length t1 = length invJ" by (rule st_length [OF s0])
  obtain t2 where s1: "st t1 (?s 1) m1 = Some t2"
    using st_total [of "?s 1" t1 m1] b(2) l1 by auto
  have l2: "length t2 = length invJ" using st_length [OF s1] l1 by simp
  obtain t3 where s2: "st t2 (?s 2) m2 = Some t3"
    using st_total [of "?s 2" t2 m2] b(3) l2 by auto
  have l3: "length t3 = length invJ" using st_length [OF s2] l2 by simp
  obtain t4 where s3: "st t3 (?s 3) m3 = Some t4"
    using st_total [of "?s 3" t3 m3] b(4) l3 by auto
  have l4: "length t4 = length invJ" using st_length [OF s3] l3 by simp
  obtain t5 where s4: "st t4 (?s 4) m4 = Some t5"
    using st_total [of "?s 4" t4 m4] b(5) l4 by auto
  have l5: "length t5 = length invJ" using st_length [OF s4] l4 by simp
  obtain t6 where s5: "st t5 (?s 5) m5 = Some t6"
    using st_total [of "?s 5" t5 m5] b(6) l5 by auto
  have l6: "length t6 = length invJ" using st_length [OF s5] l5 by simp
  have "geom3D_point ir vs nq dimn nsub iel_ho iref iq invJ = Some t6"
    by (simp only: geom3D_point_def r Option.bind.simps Let_def X_def [symmetric] M prod.case
          s0 s1 s2 s3 s4 s5)
  then show ?thesis using l6 by simp
qed

lemma geom3D_total:
  assumes "geom3D_ok order ir mesh_lor mesh_ho"
  shows "\<exists>invJ. geom3D order ir mesh_lor mesh_ho = Some invJ"
proof -
  define dimn where "dimn = Dimension mesh_ho"
  define nq where "nq = int (length ir)"
  define nsub where "nsub = order ^ nat dimn"
  define bsize where "bsize = (GetNE mesh_ho * nsub * nq * (dimn * (dimn + 1))) div 2"
  have ok: "\<exists>e vs. rd (embeddings mesh_lor) i = Some e \<and> cell_vertices mesh_lor i = Some vs
              \<and> slots_in_range bsize ((dimn * (dimn + 1)) div 2) nq nsub 6 e"
    if "i \<in> set (irange 0 (GetNE mesh_lor))" for i
  proof -
    from assms that have
      "(case rd (embeddings mesh_lor) i of
          None \<Rightarrow> False
        | Some e \<Rightarrow> slots_in_range bsize ((dimn * (dimn + 1)) div 2) nq nsub 6 e)
       \<and> cell_vertices mesh_lor i \<noteq> None"
      unfolding geom3D_ok_def Let_def dimn_def nq_def nsub_def bsize_def by blast
    then show ?thesis by (cases "rd (embeddings mesh_lor) i") auto
  qed
  have cell: "\<exists>t'. geom3D_cell ir mesh_lor nq dimn nsub i t = Some t'
                \<and> int (length t') = bsize"
    if i: "i \<in> set (irange 0 (GetNE mesh_lor))" and t: "int (length t) = bsize" for i t
  proof -
    from ok [OF i] obtain e vs where e: "rd (embeddings mesh_lor) i = Some e"
      and vs: "cell_vertices mesh_lor i = Some vs"
      and sl: "slots_in_range bsize ((dimn * (dimn + 1)) div 2) nq nsub 6 e"
      by blast
    have "\<exists>t'. for_loop (irange 0 nq)
                 (geom3D_point ir vs nq dimn nsub (parent e) (matrix e)) t = Some t'
               \<and> int (length t') = bsize"
    proof (rule for_loop_total [where P = "\<lambda>u. int (length u) = bsize"])
      fix iq and u :: "'a option list"
      assume q: "iq \<in> set (irange 0 nq)" and u: "int (length u) = bsize"
      have "\<forall>c\<in>set (irange 0 6).
              0 \<le> ind4 ((dimn * (dimn + 1)) div 2) nq nsub c iq (matrix e) (parent e)
              \<and> ind4 ((dimn * (dimn + 1)) div 2) nq nsub c iq (matrix e) (parent e)
                  < int (length u)"
        using sl q u unfolding slots_in_range_def by blast
      from geom3D_point_total [OF cell_vertices_length [OF vs] q [unfolded nq_def] this] u
      show "\<exists>u'. geom3D_point ir vs nq dimn nsub (parent e) (matrix e) iq u = Some u'
                   \<and> int (length u') = bsize"
        by auto
    qed (rule t)
    then show ?thesis
      by (simp add: geom3D_cell_def e vs)
  qed
  have "\<exists>t'. for_loop (irange 0 (GetNE mesh_lor)) (geom3D_cell ir mesh_lor nq dimn nsub)
               (alloc bsize) = Some t'"
  proof (cases "irange 0 (GetNE mesh_lor) = []")
    case True
    then show ?thesis by simp
  next
    case False
    then obtain i where i: "i \<in> set (irange 0 (GetNE mesh_lor))"
      by (cases "irange 0 (GetNE mesh_lor)") auto
    have "0 \<le> bsize"
    proof -
      from ok [OF i] obtain e where sl: "slots_in_range bsize ((dimn * (dimn + 1)) div 2) nq nsub 6 e"
        by blast
      show ?thesis
      proof (cases "nq \<le> 0")
        case True
        then have "nq = 0" by (simp add: nq_def)
        then show ?thesis by (simp add: bsize_def)
      next
        case False
        then have "(0::int) \<in> set (irange 0 nq)" "(0::int) \<in> set (irange 0 6)"
          by (simp_all add: set_irange)
        with sl have "0 \<le> ind4 ((dimn * (dimn + 1)) div 2) nq nsub 0 0 (matrix e) (parent e)
            \<and> ind4 ((dimn * (dimn + 1)) div 2) nq nsub 0 0 (matrix e) (parent e) < bsize"
          unfolding slots_in_range_def by blast
        then show ?thesis by simp
      qed
    qed
    then have "int (length (alloc bsize :: 'a option list)) = bsize"
      by (simp add: alloc_def)
    then have "\<exists>t'. for_loop (irange 0 (GetNE mesh_lor)) (geom3D_cell ir mesh_lor nq dimn nsub)
               (alloc bsize) = Some t' \<and> int (length t') = bsize"
      by (rule for_loop_total [where P = "\<lambda>u. int (length u) = bsize"]) (rule cell)
    then show ?thesis by blast
  qed
  then show ?thesis
    by (auto simp: geom3D_def Let_def dimn_def nq_def nsub_def bsize_def)
qed

subsection \<open>The 3D kernel and the global matrix\<close>

lemma length_cube_ir: "length cube_ir = 8"
  by (simp add: cube_ir_def)

lemma sheared_vertices:
  "cell_vertices sheared_mesh 0
     = Some [(0, 0, 0), (1, 0, 0), (2, 1, 0), (1, 1, 0), (0, 0, 1), (1, 0, 1), (2, 1, 1), (1, 1, 1)]"
  by (simp add: cell_vertices_def sheared_mesh_def rd_def)

lemma sheared_embedding: "rd (embeddings sheared_mesh) 0 = Some \<lparr>parent = 0, matrix = 0\<rparr>"
  by (simp add: sheared_mesh_def rd_def)

lemma sheared_embeddings_ok: "embeddings_ok (1 ^ 3) sheared_mesh"
  by (simp add: embeddings_ok_def sheared_mesh_def)

lemma sheared_geom3D_ok: "geom3D_ok 1 cube_ir sheared_mesh sheared_mesh"
proof -
  have "slots_in_range 48 6 8 1 6 \<lparr>parent = 0, matrix = 0\<rparr>"
    by (auto simp: slots_in_range_def set_irange ind4_def)
  moreover have "Dimension sheared_mesh = 3" "GetNE sheared_mesh = 1"
    by (simp_all add: sheared_mesh_def)
  ultimately show ?thesis
    by (simp add: geom3D_ok_def Let_def irange01 sheared_embedding sheared_vertices
        length_cube_ir)
qed

lemma sheared_kernel:
  "Assemble3DBatchedLOR 1 cube_ir sheared_mesh sheared_mesh sheared_fes A = Some A"
proof -
  from geom3D_total [OF sheared_geom3D_ok] obtain invJ where
    g: "geom3D 1 cube_ir sheared_mesh sheared_mesh = Some invJ" by blast
  have d: "Dimension sheared_mesh = 3" "GetNE sheared_mesh = 1"
    by (simp_all add: sheared_mesh_def)
  have "ld invJ (ind4 6 8 1 c iq 0 0) \<noteq> None"
    if "iq \<in> set (irange 0 8)" "c \<in> set (irange 0 6)" for iq c
    using geom3D_stored [OF g d(1) sheared_embeddings_ok _ _ sheared_embedding sheared_vertices,
        of iq c] that
    by (simp add: d length_cube_ir set_irange)
  then have "slots_ok 1 8 3 invJ (0 + 0 * 1 + 0 * 1 * 1) 0"
    by (simp add: slots_ok_def)
  then have "element_ok 1 8 3 invJ sheared_fes 0"
    using sheared_corners_ok
    by (simp add: element_ok_def sheared_fes_def rd_def irange01)
  then have "\<forall>iel_ho\<in>set (irange 0 (GetNE sheared_mesh)).
      element_ok 1 (int (length cube_ir)) (Dimension sheared_mesh) invJ sheared_fes iel_ho"
    by (simp add: d irange01 length_cube_ir)
  from Assemble3DBatchedLOR_total [OF g this] show ?thesis .
qed

text \<open>
  C1. The 3D kernel never writes the global matrix: the assembly loops of lines 363-460
  leave the matrix of the state they run on as it was, whatever they do to the local
  matrix, and so does the kernel whenever it returns. The driver, for a space of
  dimension 3, therefore returns the freshly created matrix eliminated and finalized,
  which stores no entry: every entry of the assembled 3D output reads as zero.
\<close>

theorem scatter_missing_3D:
  "(for_loop (irange 0 nel_ho) (element3D order nq dimn invJ fes_ho) s = Some s'
      \<longrightarrow> A_mat_ref s' = A_mat_ref s)
   \<and> (Assemble3DBatchedLOR order ir mesh_lor mesh_ho fes_ho A = Some A' \<longrightarrow> A' = A)
   \<and> (Dimension (GetMesh fes) = 3
        \<longrightarrow> AssembleBatchedLOR ir form_lor fes ess_dofs = Inr M
        \<longrightarrow> entries M = Map.empty \<and> (\<forall>i j. Elem M i j = 0))"
proof (intro conjI impI)
  assume l: "for_loop (irange 0 nel_ho) (element3D order nq dimn invJ fes_ho) s = Some s'"
  show "A_mat_ref s' = A_mat_ref s"
    by (rule for_loop_inv [OF l, where P = "\<lambda>t. A_mat_ref t = A_mat_ref s"])
       (auto dest: element3D_frame)
next
  assume "Assemble3DBatchedLOR order ir mesh_lor mesh_ho fes_ho A = Some A'"
  then show "A' = A" by (rule Assemble3DBatchedLOR_frame)
next
  assume d: "Dimension (GetMesh fes) = 3"
    and r: "AssembleBatchedLOR ir form_lor fes ess_dofs = Inr M"
  let ?n = "GetTrueVSize fes"
  from r d obtain B where
    B: "dispatch ir 3 (GetMaxElementOrder fes) (GetMesh (FESpace form_lor)) (GetMesh fes) fes
          (SparseMatrix_new ?n ?n) = Some B"
    and M: "M = Finalize (eliminate ess_dofs B)"
    by (auto simp: AssembleBatchedLOR_def Let_def split: if_splits option.splits)
  have "B = SparseMatrix_new ?n ?n"
    using B by (auto simp: dispatch_def split: if_splits dest: Assemble3DBatchedLOR_frame)
  then have e: "entries M = Map.empty"
    using M by (simp add: Finalize_def entries_eliminate_new)
  show "entries M = Map.empty" by (rule e)
  show "\<forall>i j. Elem M i j = 0" by (simp add: Elem_def e)
qed

theorem scatter_missing_3D_witness:
  "Assemble3DBatchedLOR 1 cube_ir sheared_mesh sheared_mesh sheared_fes small_matrix
     = Some small_matrix
   \<and> Elem small_matrix 0 1 = 5
   \<and> Dimension (GetMesh sheared_fes) = 3
   \<and> AssembleBatchedLOR cube_ir sheared_form sheared_fes [] = Inr (Finalize (SparseMatrix_new 8 8))
   \<and> Elem (Finalize (SparseMatrix_new 8 8) :: real SparseMatrix) 3 5 = 0"
proof -
  have k: "Assemble3DBatchedLOR 1 cube_ir sheared_mesh sheared_mesh sheared_fes small_matrix
     = Some small_matrix"
    by (rule sheared_kernel)
  have e: "Elem small_matrix 0 1 = 5"
    by (simp add: small_matrix_def Add_def Elem_def SparseMatrix_new_def)
  have d: "Dimension (GetMesh sheared_fes) = 3"
    by (simp add: sheared_fes_def sheared_mesh_def)
  have r: "AssembleBatchedLOR cube_ir sheared_form sheared_fes []
      = Inr (Finalize (SparseMatrix_new 8 8))"
    using sheared_kernel [of "SparseMatrix_new 8 8"]
    by (simp add: AssembleBatchedLOR_def Let_def dispatch_def sheared_form_def eliminate_def
        sheared_fes_def sheared_mesh_def)
  from scatter_missing_3D [where order = 1 and ir = cube_ir and mesh_lor = sheared_mesh
      and mesh_ho = sheared_mesh and fes_ho = sheared_fes and A = small_matrix
      and A' = small_matrix and fes = sheared_fes and form_lor = sheared_form
      and ess_dofs = "[]" and M = "Finalize (SparseMatrix_new 8 8)"] d r
  have z: "Elem (Finalize (SparseMatrix_new 8 8) :: real SparseMatrix) 3 5 = 0"
    by blast
  from k e d r z
  show ?thesis by simp
qed

subsection \<open>The 3D geometric factor cache\<close>

lemma adjugate3D:
  fixes J11 :: "'a::comm_ring_1"
  assumes "adjJ3D (J11, J12, J13, J21, J22, J23, J31, J32, J33)
             = (A11, A12, A13, A21, A22, A23, A31, A32, A33)"
  shows "J11 * A11 + J12 * A21 + J13 * A31 = detJ3D (J11, J12, J13, J21, J22, J23, J31, J32, J33)"
    and "J11 * A12 + J12 * A22 + J13 * A32 = 0"
    and "J11 * A13 + J12 * A23 + J13 * A33 = 0"
    and "J21 * A11 + J22 * A21 + J23 * A31 = 0"
    and "J21 * A12 + J22 * A22 + J23 * A32 = detJ3D (J11, J12, J13, J21, J22, J23, J31, J32, J33)"
    and "J21 * A13 + J22 * A23 + J23 * A33 = 0"
    and "J31 * A11 + J32 * A21 + J33 * A31 = 0"
    and "J31 * A12 + J32 * A22 + J33 * A32 = 0"
    and "J31 * A13 + J32 * A23 + J33 * A33 = detJ3D (J11, J12, J13, J21, J22, J23, J31, J32, J33)"
proof -
  have A: "A11 = J22 * J33 - J23 * J32" "A12 = J32 * J13 - J12 * J33"
    "A13 = J12 * J23 - J22 * J13" "A21 = J31 * J23 - J21 * J33"
    "A22 = J11 * J33 - J13 * J31" "A23 = J21 * J13 - J11 * J23"
    "A31 = J21 * J32 - J31 * J22" "A32 = J31 * J12 - J11 * J32"
    "A33 = J11 * J22 - J12 * J21"
    using assms by (simp_all add: adjJ3D_def Let_def)
  show "J11 * A11 + J12 * A21 + J13 * A31 = detJ3D (J11, J12, J13, J21, J22, J23, J31, J32, J33)"
    unfolding A detJ3D_def prod.case by (simp add: algebra_simps)
  show "J11 * A12 + J12 * A22 + J13 * A32 = 0"
    unfolding A by (simp add: algebra_simps)
  show "J11 * A13 + J12 * A23 + J13 * A33 = 0"
    unfolding A by (simp add: algebra_simps)
  show "J21 * A11 + J22 * A21 + J23 * A31 = 0"
    unfolding A by (simp add: algebra_simps)
  show "J21 * A12 + J22 * A22 + J23 * A32 = detJ3D (J11, J12, J13, J21, J22, J23, J31, J32, J33)"
    unfolding A detJ3D_def prod.case by (simp add: algebra_simps)
  show "J21 * A13 + J22 * A23 + J23 * A33 = 0"
    unfolding A by (simp add: algebra_simps)
  show "J31 * A11 + J32 * A21 + J33 * A31 = 0"
    unfolding A by (simp add: algebra_simps)
  show "J31 * A12 + J32 * A22 + J33 * A32 = 0"
    unfolding A by (simp add: algebra_simps)
  show "J31 * A13 + J32 * A23 + J33 * A33 = detJ3D (J11, J12, J13, J21, J22, J23, J31, J32, J33)"
    unfolding A detJ3D_def prod.case by (simp add: algebra_simps)
qed


lemma jacobian3D_trilinear:
  fixes x :: "'a::comm_ring_1"
  shows "trilinear3D (v00, v01, v02) (v10, v11, v12) (v20, v21, v22) (v30, v31, v32)
           (v40, v41, v42) (v50, v51, v52) (v60, v61, v62) (v70, v71, v72) (x + h) y z
         = (case (jacobian3D (v00, v01, v02) (v10, v11, v12) (v20, v21, v22) (v30, v31, v32)
                    (v40, v41, v42) (v50, v51, v52) (v60, v61, v62) (v70, v71, v72) x y z,
                  trilinear3D (v00, v01, v02) (v10, v11, v12) (v20, v21, v22) (v30, v31, v32)
                    (v40, v41, v42) (v50, v51, v52) (v60, v61, v62) (v70, v71, v72) x y z) of
              ((J11, J12, J13, J21, J22, J23, J31, J32, J33), (tx, ty, tz)) \<Rightarrow>
                (tx + h * J11, ty + h * J21, tz + h * J31))"
    and "trilinear3D (v00, v01, v02) (v10, v11, v12) (v20, v21, v22) (v30, v31, v32)
           (v40, v41, v42) (v50, v51, v52) (v60, v61, v62) (v70, v71, v72) x (y + h) z
         = (case (jacobian3D (v00, v01, v02) (v10, v11, v12) (v20, v21, v22) (v30, v31, v32)
                    (v40, v41, v42) (v50, v51, v52) (v60, v61, v62) (v70, v71, v72) x y z,
                  trilinear3D (v00, v01, v02) (v10, v11, v12) (v20, v21, v22) (v30, v31, v32)
                    (v40, v41, v42) (v50, v51, v52) (v60, v61, v62) (v70, v71, v72) x y z) of
              ((J11, J12, J13, J21, J22, J23, J31, J32, J33), (tx, ty, tz)) \<Rightarrow>
                (tx + h * J12, ty + h * J22, tz + h * J32))"
    and "trilinear3D (v00, v01, v02) (v10, v11, v12) (v20, v21, v22) (v30, v31, v32)
           (v40, v41, v42) (v50, v51, v52) (v60, v61, v62) (v70, v71, v72) x y (z + h)
         = (case (jacobian3D (v00, v01, v02) (v10, v11, v12) (v20, v21, v22) (v30, v31, v32)
                    (v40, v41, v42) (v50, v51, v52) (v60, v61, v62) (v70, v71, v72) x y z,
                  trilinear3D (v00, v01, v02) (v10, v11, v12) (v20, v21, v22) (v30, v31, v32)
                    (v40, v41, v42) (v50, v51, v52) (v60, v61, v62) (v70, v71, v72) x y z) of
              ((J11, J12, J13, J21, J22, J23, J31, J32, J33), (tx, ty, tz)) \<Rightarrow>
                (tx + h * J13, ty + h * J23, tz + h * J33))"
  by (simp_all add: jacobian3D_def trilinear3D_def Let_def algebra_simps)


lemma sheared_jacobian:
  "jacobian3D (0, 0, 0) (1, 0, 0) (2, 1, 0) (1, 1, 0) (0, 0, 1) (1, 0, 1) (2, 1, 1) (1, 1, 1) (x::real) y z
     = (1, 1, 0, 0, 1, 0, 0, 0, 1)"
  by (simp add: jacobian3D_def algebra_simps)

lemma sheared_adjugate: "adjJ3D (1, 1, 0, 0, 1, 0, 0, 0, 1 :: real) = (1, - 1, 0, 0, 1, 0, 0, 0, 1)"
  by (simp add: adjJ3D_def)

lemma sheared_det: "detJ3D (1, 1, 0, 0, 1, 0, 0, 0, 1 :: real) = 1"
  by (simp add: detJ3D_def)

lemma sheared_metric: "metric3D (1 / 8) (1, 1, 0, 0, 1, 0, 0, 0, 1 :: real)
     = (1 / 4, - (1 / 8), 0, 1 / 8, 0, 1 / 8)"
  by (simp add: metric3D_def Let_def sheared_adjugate sheared_det)

lemma sheared_AtA: "AtA_metric3D (1 / 8) (1, 1, 0, 0, 1, 0, 0, 0, 1 :: real)
     = (1 / 8, - (1 / 8), 0, 1 / 4, 0, 1 / 8)"
  by (simp add: AtA_metric3D_def Let_def sheared_adjugate sheared_det)

lemma cube_ir_first: "rd cube_ir 0 = Some \<lparr>ip_x = 0, ip_y = 0, ip_z = 0, weight = 1 / 8\<rparr>"
  by (simp add: cube_ir_def rd_def)

lemma cube_ir_fourth: "rd cube_ir 3 = Some \<lparr>ip_x = 1, ip_y = 1, ip_z = 0, weight = 1 / 8\<rparr>"
  by (simp add: cube_ir_def rd_def)

lemma sheared_point_metric:
  "point_metric3D cube_ir
     [(0, 0, 0), (1, 0, 0), (2, 1, 0), (1, 1, 0), (0, 0, 1), (1, 0, 1), (2, 1, 1), (1, 1, 1)] 0
   = (1 / 4, - (1 / 8), 0, 1 / 8, 0, 1 / 8)"
  using rd_Some_nth [OF cube_ir_first]
  by (simp add: point_metric3D_def sheared_jacobian sheared_metric)

text \<open>
  C9, as stated, fails on the sheared cell. At its first quadrature point the Jacobian
  is \<open>(1, 1, 0; 0, 1, 0; 0, 0, 1)\<close> with determinant 1 and adjugate
  \<open>A = (1, -1, 0; 0, 1, 0; 0, 0, 1)\<close>. The cache stores 1/4 in the \<open>xx\<close> slot and 1/8 in
  the \<open>yy\<close> slot, the entries (1,1) and (2,2) of \<open>A A\<^sup>T\<close> times 1/8; the entries of
  \<open>A\<^sup>T A\<close> the claim names give 1/8 and 1/4.
\<close>

theorem metric_cache_3D_counterexample:
  "\<exists>invJ. geom3D 1 cube_ir sheared_mesh sheared_mesh = Some invJ
     \<and> ld invJ (ind4 6 8 (1 ^ 3) 0 0 0 0) = Some (1 / 4)
     \<and> ld invJ (ind4 6 8 (1 ^ 3) 3 0 0 0) = Some (1 / 8)
     \<and> AtA_metric3D (1 / 8)
          (jacobian3D (0, 0, 0) (1, 0, 0) (2, 1, 0) (1, 1, 0) (0, 0, 1) (1, 0, 1) (2, 1, 1) (1, 1, 1) 0 0 0)
        = (1 / 8, - (1 / 8), 0, 1 / 4, 0, 1 / 8 :: real)"
proof -
  from geom3D_total [OF sheared_geom3D_ok] obtain invJ where
    g: "geom3D 1 cube_ir sheared_mesh sheared_mesh = Some invJ" by blast
  have d: "Dimension sheared_mesh = 3" "GetNE sheared_mesh = 1"
    by (simp_all add: sheared_mesh_def)
  have st: "ld invJ (ind4 6 8 (1 ^ 3) c 0 0 0)
      = Some (comp6 c (1 / 4, - (1 / 8), 0, 1 / 8, 0, 1 / 8))" if "0 \<le> c" "c < 6" for c
    using geom3D_stored [OF g d(1) sheared_embeddings_ok _ _ sheared_embedding sheared_vertices,
        of 0 c] that
    by (simp add: d length_cube_ir sheared_point_metric)
  have "ld invJ (ind4 6 8 (1 ^ 3) 0 0 0 0) = Some (1 / 4)"
    "ld invJ (ind4 6 8 (1 ^ 3) 3 0 0 0) = Some (1 / 8)"
    using st [of 0] st [of 3] by (simp_all add: comp6_def)
  with g show ?thesis
    by (simp add: sheared_jacobian sheared_AtA)
qed

text \<open>
  C9, amended. In the 3D geometric factor cache, for every fine cell and each of its
  quadrature points (8 for a hexahedron), the Jacobian is that of the trilinear map of
  the cell's 8 vertices (a step \<open>h\<close> along a reference axis moves the image by \<open>h\<close> times
  the matching column), \<open>detJ\<close> and \<open>A\<close> are its determinant and its adjugate
  (\<open>J A = detJ I\<close>, in exact arithmetic), and the 6 stored components equal \<open>w_detJ\<close> times
  the entries (1,1), (2,1), (3,1), (2,2), (3,2), (3,3) of \<open>A A\<^sup>T\<close> (xx, xy, xz, yy, yz, zz),
  with \<open>w_detJ = weight / detJ\<close>, in the slots of the cell's embedding. The refinement
  table is assumed to give the fine cells different sub-cells, each within its element.
\<close>

theorem metric_cache_3D:
  fixes invJ :: "'a::field option list"
  assumes g: "geom3D order ir mesh_lor mesh_ho = Some invJ"
    and d: "Dimension mesh_ho = 3"
    and ok: "embeddings_ok (order ^ 3) mesh_lor"
    and i: "0 \<le> iel_lor" "iel_lor < GetNE mesh_lor"
    and e: "rd (embeddings mesh_lor) iel_lor = Some e"
    and vs: "cell_vertices mesh_lor iel_lor = Some
        [(v00, v01, v02), (v10, v11, v12), (v20, v21, v22), (v30, v31, v32),
         (v40, v41, v42), (v50, v51, v52), (v60, v61, v62), (v70, v71, v72)]"
    and ip: "rd ir iq = Some ip"
    and J: "jacobian3D (v00, v01, v02) (v10, v11, v12) (v20, v21, v22) (v30, v31, v32)
         (v40, v41, v42) (v50, v51, v52) (v60, v61, v62) (v70, v71, v72)
         (ip_x ip) (ip_y ip) (ip_z ip) = (J11, J12, J13, J21, J22, J23, J31, J32, J33)"
    and T: "trilinear3D (v00, v01, v02) (v10, v11, v12) (v20, v21, v22) (v30, v31, v32)
         (v40, v41, v42) (v50, v51, v52) (v60, v61, v62) (v70, v71, v72)
         (ip_x ip) (ip_y ip) (ip_z ip) = (tx, ty, tz)"
    and A: "adjJ3D (J11, J12, J13, J21, J22, J23, J31, J32, J33) = (A11, A12, A13, A21, A22, A23, A31, A32, A33)"
    and w: "w_detJ = weight ip / detJ3D (J11, J12, J13, J21, J22, J23, J31, J32, J33)"
  shows "ld invJ (ind4 6 (int (length ir)) (order ^ 3) 0 iq (matrix e) (parent e))
           = Some (w_detJ * (A11 * A11 + A12 * A12 + A13 * A13))
       \<and> ld invJ (ind4 6 (int (length ir)) (order ^ 3) 1 iq (matrix e) (parent e))
           = Some (w_detJ * (A11 * A21 + A12 * A22 + A13 * A23))
       \<and> ld invJ (ind4 6 (int (length ir)) (order ^ 3) 2 iq (matrix e) (parent e))
           = Some (w_detJ * (A11 * A31 + A12 * A32 + A13 * A33))
       \<and> ld invJ (ind4 6 (int (length ir)) (order ^ 3) 3 iq (matrix e) (parent e))
           = Some (w_detJ * (A21 * A21 + A22 * A22 + A23 * A23))
       \<and> ld invJ (ind4 6 (int (length ir)) (order ^ 3) 4 iq (matrix e) (parent e))
           = Some (w_detJ * (A21 * A31 + A22 * A32 + A23 * A33))
       \<and> ld invJ (ind4 6 (int (length ir)) (order ^ 3) 5 iq (matrix e) (parent e))
           = Some (w_detJ * (A31 * A31 + A32 * A32 + A33 * A33))
       \<and> J11 * A11 + J12 * A21 + J13 * A31 = detJ3D (J11, J12, J13, J21, J22, J23, J31, J32, J33)
       \<and> J11 * A12 + J12 * A22 + J13 * A32 = 0
       \<and> J11 * A13 + J12 * A23 + J13 * A33 = 0
       \<and> J21 * A11 + J22 * A21 + J23 * A31 = 0
       \<and> J21 * A12 + J22 * A22 + J23 * A32 = detJ3D (J11, J12, J13, J21, J22, J23, J31, J32, J33)
       \<and> J21 * A13 + J22 * A23 + J23 * A33 = 0
       \<and> J31 * A11 + J32 * A21 + J33 * A31 = 0
       \<and> J31 * A12 + J32 * A22 + J33 * A32 = 0
       \<and> J31 * A13 + J32 * A23 + J33 * A33 = detJ3D (J11, J12, J13, J21, J22, J23, J31, J32, J33)
       \<and> (\<forall>h. trilinear3D (v00, v01, v02) (v10, v11, v12) (v20, v21, v22) (v30, v31, v32)
         (v40, v41, v42) (v50, v51, v52) (v60, v61, v62) (v70, v71, v72)
                (ip_x ip + h) (ip_y ip) (ip_z ip) = (tx + h * J11, ty + h * J21, tz + h * J31))
       \<and> (\<forall>h. trilinear3D (v00, v01, v02) (v10, v11, v12) (v20, v21, v22) (v30, v31, v32)
         (v40, v41, v42) (v50, v51, v52) (v60, v61, v62) (v70, v71, v72)
                (ip_x ip) (ip_y ip + h) (ip_z ip) = (tx + h * J12, ty + h * J22, tz + h * J32))
       \<and> (\<forall>h. trilinear3D (v00, v01, v02) (v10, v11, v12) (v20, v21, v22) (v30, v31, v32)
         (v40, v41, v42) (v50, v51, v52) (v60, v61, v62) (v70, v71, v72)
                (ip_x ip) (ip_y ip) (ip_z ip + h) = (tx + h * J13, ty + h * J23, tz + h * J33))"
proof -
  have q: "0 \<le> iq" "iq < int (length ir)" and n: "ir ! nat iq = ip"
    using ip by (auto simp: rd_def split: if_splits)
  have pm: "point_metric3D ir
        [(v00, v01, v02), (v10, v11, v12), (v20, v21, v22), (v30, v31, v32),
         (v40, v41, v42), (v50, v51, v52), (v60, v61, v62), (v70, v71, v72)] iq
      = (w_detJ * (A11 * A11 + A12 * A12 + A13 * A13),
         w_detJ * (A11 * A21 + A12 * A22 + A13 * A23),
         w_detJ * (A11 * A31 + A12 * A32 + A13 * A33),
         w_detJ * (A21 * A21 + A22 * A22 + A23 * A23),
         w_detJ * (A21 * A31 + A22 * A32 + A23 * A33),
         w_detJ * (A31 * A31 + A32 * A32 + A33 * A33))"
    by (simp add: point_metric3D_def n J metric3D_def Let_def A w)
  have st: "ld invJ (ind4 6 (int (length ir)) (order ^ 3) c iq (matrix e) (parent e))
      = Some (comp6 c (point_metric3D ir
        [(v00, v01, v02), (v10, v11, v12), (v20, v21, v22), (v30, v31, v32),
         (v40, v41, v42), (v50, v51, v52), (v60, v61, v62), (v70, v71, v72)] iq))"
    if "0 \<le> c" "c < 6" for c
    by (rule geom3D_stored [OF g d ok i e vs q that])
  note s = st [of 0] st [of 1] st [of 2] st [of 3] st [of 4] st [of 5]
  note a = adjugate3D [OF A]
  note t = jacobian3D_trilinear [where x = "ip_x ip" and y = "ip_y ip" and z = "ip_z ip"]
  show ?thesis
    using s a by (simp add: pm comp6_def t J T)
qed

theorem metric_cache_3D_witness:
  "\<exists>invJ. geom3D 1 cube_ir sheared_mesh sheared_mesh = Some invJ
     \<and> embeddings_ok (1 ^ 3) sheared_mesh
     \<and> ld invJ (ind4 6 8 (1 ^ 3) 0 3 0 0) = Some (1 / 4)
     \<and> ld invJ (ind4 6 8 (1 ^ 3) 1 3 0 0) = Some (- (1 / 8))
     \<and> ld invJ (ind4 6 8 (1 ^ 3) 2 3 0 0) = Some 0
     \<and> ld invJ (ind4 6 8 (1 ^ 3) 3 3 0 0) = Some (1 / 8)
     \<and> ld invJ (ind4 6 8 (1 ^ 3) 4 3 0 0) = Some 0
     \<and> ld invJ (ind4 6 8 (1 ^ 3) 5 3 0 0) = Some (1 / 8)"
proof -
  from geom3D_total [OF sheared_geom3D_ok] obtain invJ where
    g: "geom3D 1 cube_ir sheared_mesh sheared_mesh = Some invJ" by blast
  have d: "Dimension sheared_mesh = 3" "(0::int) \<le> 0" "0 < GetNE sheared_mesh"
    by (simp_all add: sheared_mesh_def)
  have T: "trilinear3D (0, 0, 0) (1, 0, 0) (2, 1, 0) (1, 1, 0) (0, 0, 1) (1, 0, 1) (2, 1, 1) (1, 1, 1) (1::real) 1 0
      = (2, 1, 0)"
    by (simp add: trilinear3D_def)
  have w: "(1 / 8 :: real) = weight \<lparr>ip_x = 1, ip_y = 1, ip_z = 0, weight = 1 / 8\<rparr>
             / detJ3D (1, 1, 0, 0, 1, 0, 0, 0, 1)"
    by (simp add: sheared_det)
  from metric_cache_3D [OF g d(1) sheared_embeddings_ok d(2,3) sheared_embedding
      sheared_vertices cube_ir_fourth, of 1 1 0 0 1 0 0 0 1 2 1 0 1 "- 1" 0 0 1 0 0 0 1 "1 / 8"]
    sheared_jacobian [of 1 1 0] T sheared_adjugate w
  have "ld invJ (ind4 6 8 (1 ^ 3) 0 3 0 0) = Some (1 / 4)
     \<and> ld invJ (ind4 6 8 (1 ^ 3) 1 3 0 0) = Some (- (1 / 8))
     \<and> ld invJ (ind4 6 8 (1 ^ 3) 2 3 0 0) = Some 0
     \<and> ld invJ (ind4 6 8 (1 ^ 3) 3 3 0 0) = Some (1 / 8)
     \<and> ld invJ (ind4 6 8 (1 ^ 3) 4 3 0 0) = Some 0
     \<and> ld invJ (ind4 6 8 (1 ^ 3) 5 3 0 0) = Some (1 / 8)"
    by (simp add: length_cube_ir)
  with g sheared_embeddings_ok show ?thesis by blast
qed

subsection \<open>The unit square\<close>

lemma square_geom2D: "geom2D 1 square_ir square_mesh square_mesh = Some square_invJ"
  by code_simp

lemmas eval2D = pair_val_def quad2D_def irange_def k_begin_def k_end_def btab_def rd_def ld_def
  ind4_def Let_def upto.simps square_invJ_def

lemma square_pair_val:
  "pair_val 1 4 2 square_invJ 0 0 0 0 0 = Some 1"
  "pair_val 1 4 2 square_invJ 0 0 0 1 0 = Some (- (1/2))"
  "pair_val 1 4 2 square_invJ 0 0 0 0 1 = Some (- (1/2))"
  "pair_val 1 4 2 square_invJ 0 0 0 1 1 = Some 0"
  "pair_val 1 4 2 square_invJ 0 1 0 0 0 = Some (- (1/2))"
  "pair_val 1 4 2 square_invJ 0 1 0 1 0 = Some 1"
  "pair_val 1 4 2 square_invJ 0 1 0 0 1 = Some 0"
  "pair_val 1 4 2 square_invJ 0 1 0 1 1 = Some (- (1/2))"
  "pair_val 1 4 2 square_invJ 0 0 1 0 0 = Some (- (1/2))"
  "pair_val 1 4 2 square_invJ 0 0 1 1 0 = Some 0"
  "pair_val 1 4 2 square_invJ 0 0 1 0 1 = Some 1"
  "pair_val 1 4 2 square_invJ 0 0 1 1 1 = Some (- (1/2))"
  "pair_val 1 4 2 square_invJ 0 1 1 0 0 = Some 0"
  "pair_val 1 4 2 square_invJ 0 1 1 1 0 = Some (- (1/2))"
  "pair_val 1 4 2 square_invJ 0 1 1 0 1 = Some (- (1/2))"
  "pair_val 1 4 2 square_invJ 0 1 1 1 1 = Some 1"
  by (simp_all add: eval2D)

lemma square_element:
  "\<exists>A. element2D 1 4 2 square_invJ square_fes 0 (SparseMatrix_new 4 4) = Some A
     \<and> Elem A 0 0 = 1 \<and> Elem A 0 1 = - (1/2) \<and> Elem A 0 2 = 0 \<and> Elem A 0 3 = - (1/2)
     \<and> Elem A 1 0 = - (1/2) \<and> Elem A 1 1 = 1 \<and> Elem A 1 2 = - (1/2) \<and> Elem A 1 3 = 0
     \<and> Elem A 2 0 = 0 \<and> Elem A 2 1 = - (1/2) \<and> Elem A 2 2 = 1 \<and> Elem A 2 3 = - (1/2)
     \<and> Elem A 3 0 = - (1/2) \<and> Elem A 3 1 = 0 \<and> Elem A 3 2 = - (1/2) \<and> Elem A 3 3 = 1"
  by (simp add: element2D_def row2D_def col2D_def square_fes_def rd_def irange_def upto.simps
      Let_def square_pair_val Add_def Elem_def SparseMatrix_new_def)

lemma Elem_Finalize: "Elem (Finalize A) i j = Elem A i j"
  by (simp add: Elem_def Finalize_def)

lemma square_driver:
  "\<exists>M. AssembleBatchedLOR square_ir square_form square_fes [] = Inr M
     \<and> Elem M 0 0 = 1 \<and> Elem M 0 1 = - (1/2) \<and> Elem M 0 2 = 0 \<and> Elem M 0 3 = - (1/2)
     \<and> Elem M 1 0 = - (1/2) \<and> Elem M 1 1 = 1 \<and> Elem M 1 2 = - (1/2) \<and> Elem M 1 3 = 0
     \<and> Elem M 2 0 = 0 \<and> Elem M 2 1 = - (1/2) \<and> Elem M 2 2 = 1 \<and> Elem M 2 3 = - (1/2)
     \<and> Elem M 3 0 = - (1/2) \<and> Elem M 3 1 = 0 \<and> Elem M 3 2 = - (1/2) \<and> Elem M 3 3 = 1"
proof -
  from square_element obtain A where
    A: "element2D 1 4 2 square_invJ square_fes 0 (SparseMatrix_new 4 4) = Some A"
    and v: "Elem A 0 0 = 1" "Elem A 0 1 = - (1/2)" "Elem A 0 2 = 0" "Elem A 0 3 = - (1/2)"
      "Elem A 1 0 = - (1/2)" "Elem A 1 1 = 1" "Elem A 1 2 = - (1/2)" "Elem A 1 3 = 0"
      "Elem A 2 0 = 0" "Elem A 2 1 = - (1/2)" "Elem A 2 2 = 1" "Elem A 2 3 = - (1/2)"
      "Elem A 3 0 = - (1/2)" "Elem A 3 1 = 0" "Elem A 3 2 = - (1/2)" "Elem A 3 3 = 1"
    by blast
  have l: "int (length square_ir) = 4" by (simp add: square_ir_def)
  have m: "GetNE square_mesh = 1" "Dimension square_mesh = 2"
    by (simp_all add: square_mesh_def)
  have k: "Assemble2DBatchedLOR 1 square_ir square_mesh square_mesh square_fes
             (SparseMatrix_new 4 4) = Some A"
    by (simp add: Assemble2DBatchedLOR_def square_geom2D l m irange01 A)
  have f: "GetMesh square_fes = square_mesh" "UsesTensorBasis square_fes"
    "GetMaxElementOrder square_fes = 1" "GetTrueVSize square_fes = 4"
    by (simp_all add: square_fes_def)
  have "AssembleBatchedLOR square_ir square_form square_fes [] = Inr (Finalize A)"
    by (simp add: AssembleBatchedLOR_def Let_def dispatch_def square_form_def f m k
        eliminate_def)
  then show ?thesis
    using v by (simp add: Elem_Finalize)
qed

text \<open>
  C7, as stated, fails: the driver assembles the unit square, as one element of order 1
  and with no essential dof, to a matrix with 1 on the diagonal, -1/2 between nodes that
  share an edge and 0 between opposite nodes, not 2/3, -1/6 and -1/3.
\<close>

theorem unit_square_counterexample:
  "(\<exists>M. AssembleBatchedLOR square_ir square_form square_fes [] = Inr M
       \<and> Elem M 0 0 = 1 \<and> Elem M 0 1 = - (1/2) \<and> Elem M 0 2 = 0)
   \<and> \<not> (\<exists>M. AssembleBatchedLOR square_ir square_form square_fes [] = Inr M
       \<and> Elem M 0 0 = 2/3 \<and> Elem M 0 1 = - (1/6) \<and> Elem M 0 2 = - (1/3))"
proof -
  from square_driver obtain M where
    M: "AssembleBatchedLOR square_ir square_form square_fes [] = Inr M"
    and v: "Elem M 0 0 = 1" "Elem M 0 1 = - (1/2)" "Elem M 0 2 = 0"
    by blast
  have "\<not> (\<exists>M'. AssembleBatchedLOR square_ir square_form square_fes [] = Inr M'
       \<and> Elem M' 0 0 = 2/3 \<and> Elem M' 0 1 = - (1/6) \<and> Elem M' 0 2 = - (1/3))"
    using M v by auto
  with M v show ?thesis by blast
qed

text \<open>
  C7, amended. A single order-1, 2D high-order element covering the unit square, with no
  essential dofs, assembles to the bilinear Laplacian stiffness matrix under the
  two-point Gauss-Lobatto rule the kernel integrates with (the corners as quadrature
  points): every diagonal entry equals 1, every edge-adjacent off-diagonal entry equals
  -1/2, and every diagonally-opposite off-diagonal entry equals 0. The dofs 0, 1, 2, 3
  are the vertices (0,0), (1,0), (1,1), (0,1).
\<close>

theorem unit_square_stiffness:
  "\<exists>M. AssembleBatchedLOR square_ir square_form square_fes [] = Inr M
     \<and> Elem M 0 0 = 1 \<and> Elem M 1 1 = 1 \<and> Elem M 2 2 = 1 \<and> Elem M 3 3 = 1
     \<and> Elem M 0 1 = - (1/2) \<and> Elem M 1 0 = - (1/2) \<and> Elem M 1 2 = - (1/2)
     \<and> Elem M 2 1 = - (1/2) \<and> Elem M 2 3 = - (1/2) \<and> Elem M 3 2 = - (1/2)
     \<and> Elem M 3 0 = - (1/2) \<and> Elem M 0 3 = - (1/2)
     \<and> Elem M 0 2 = 0 \<and> Elem M 2 0 = 0 \<and> Elem M 1 3 = 0 \<and> Elem M 3 1 = 0"
  using square_driver by blast

subsection \<open>The 2D geometric factor cache\<close>

lemma para_geom2D: "geom2D 1 square_ir para_mesh para_mesh = Some para_invJ"
  by code_simp

text \<open>
  C3. In the 2D geometric factor cache, for every fine cell and each of its quadrature
  points (4 for a quadrilateral), the three slots of the buffer addressed by (parent
  element, sub-cell index of the embedding, quadrature point, component) hold
  \<open>w_detJ * (J12 * J12 + J22 * J22)\<close>, \<open>- w_detJ * (J12 * J11 + J22 * J21)\<close> and
  \<open>w_detJ * (J11 * J11 + J21 * J21)\<close>, with \<open>w_detJ = weight / (J11 * J22 - J21 * J12)\<close>,
  when the cache returns. The refinement table is assumed to give the fine cells
  different sub-cells, each within its element; no law of arithmetic is used.
\<close>

theorem metric_cache_2D:
  assumes g: "geom2D order ir mesh_lor mesh_ho = Some invJ"
    and d: "Dimension mesh_ho = 2"
    and ok: "embeddings_ok (order ^ 2) mesh_lor"
    and i: "0 \<le> iel_lor" "iel_lor < GetNE mesh_lor"
    and e: "rd (embeddings mesh_lor) iel_lor = Some e"
    and ip: "rd ir iq = Some ip"
    and J: "rd (geom_J mesh_lor) (ind4 (int (length ir)) 2 2 iq 0 0 iel_lor) = Some J11"
      "rd (geom_J mesh_lor) (ind4 (int (length ir)) 2 2 iq 1 0 iel_lor) = Some J21"
      "rd (geom_J mesh_lor) (ind4 (int (length ir)) 2 2 iq 0 1 iel_lor) = Some J12"
      "rd (geom_J mesh_lor) (ind4 (int (length ir)) 2 2 iq 1 1 iel_lor) = Some J22"
    and w: "w_detJ = weight ip / (J11 * J22 - J21 * J12)"
  shows "ld invJ (ind4 3 (int (length ir)) (order ^ 2) 0 iq (matrix e) (parent e))
           = Some (w_detJ * (J12 * J12 + J22 * J22))
       \<and> ld invJ (ind4 3 (int (length ir)) (order ^ 2) 1 iq (matrix e) (parent e))
           = Some (- w_detJ * (J12 * J11 + J22 * J21))
       \<and> ld invJ (ind4 3 (int (length ir)) (order ^ 2) 2 iq (matrix e) (parent e))
           = Some (w_detJ * (J11 * J11 + J21 * J21))"
proof -
  have q: "0 \<le> iq" "iq < int (length ir)" and n: "ir ! nat iq = ip"
    using ip by (auto simp: rd_def split: if_splits)
  have pm: "point_metric2D ir (geom_J mesh_lor) (int (length ir)) 2 iel_lor iq
      = (w_detJ * (J12 * J12 + J22 * J22), - w_detJ * (J12 * J11 + J22 * J21),
         w_detJ * (J11 * J11 + J21 * J21))"
    unfolding point_metric2D_def n J [THEN rd_Some_nth] metric2D_def Let_def w ..
  have st: "ld invJ (ind4 3 (int (length ir)) (order ^ 2) c iq (matrix e) (parent e))
      = Some (comp3 c (point_metric2D ir (geom_J mesh_lor) (int (length ir)) 2 iel_lor iq))"
    if "0 \<le> c" "c < 3" for c
    by (rule geom2D_stored [OF g d ok i e q that])
  show ?thesis
    using st [of 0] st [of 1] st [of 2] by (simp add: pm comp3_def)
qed

theorem metric_cache_2D_witness:
  "geom2D 1 square_ir para_mesh para_mesh = Some para_invJ
   \<and> embeddings_ok (1 ^ 2) para_mesh
   \<and> rd (geom_J para_mesh) (ind4 4 2 2 2 0 0 0) = Some 2
   \<and> rd (geom_J para_mesh) (ind4 4 2 2 2 1 0 0) = Some 0
   \<and> rd (geom_J para_mesh) (ind4 4 2 2 2 0 1 0) = Some 1
   \<and> rd (geom_J para_mesh) (ind4 4 2 2 2 1 1 0) = Some 1
   \<and> ld para_invJ (ind4 3 4 (1 ^ 2) 0 2 0 0) = Some (1 / 4)
   \<and> ld para_invJ (ind4 3 4 (1 ^ 2) 1 2 0 0) = Some (- (1 / 4))
   \<and> ld para_invJ (ind4 3 4 (1 ^ 2) 2 2 0 0) = Some (1 / 2)"
proof -
  have d: "Dimension para_mesh = 2" "(0::int) \<le> 0" "0 < GetNE para_mesh"
    by (simp_all add: para_mesh_def)
  have ok: "embeddings_ok (1 ^ 2) para_mesh"
    by (simp add: embeddings_ok_def para_mesh_def)
  have e: "rd (embeddings para_mesh) 0 = Some \<lparr>parent = 0, matrix = 0\<rparr>"
    by (simp add: para_mesh_def rd_def)
  have ip: "rd square_ir 2 = Some \<lparr>ip_x = 0, ip_y = 1, ip_z = 0, weight = 1 / 4\<rparr>"
    by (simp add: square_ir_def rd_def)
  have l: "int (length square_ir) = 4" by (simp add: square_ir_def)
  have J: "rd (geom_J para_mesh) (ind4 (int (length square_ir)) 2 2 2 0 0 0) = Some 2"
    "rd (geom_J para_mesh) (ind4 (int (length square_ir)) 2 2 2 1 0 0) = Some 0"
    "rd (geom_J para_mesh) (ind4 (int (length square_ir)) 2 2 2 0 1 0) = Some 1"
    "rd (geom_J para_mesh) (ind4 (int (length square_ir)) 2 2 2 1 1 0) = Some 1"
    by (simp_all add: l para_mesh_def rd_def ind4_def)
  have w: "(1 / 8 :: real)
      = weight \<lparr>ip_x = 0, ip_y = 1, ip_z = 0, weight = 1 / 4\<rparr> / (2 * 1 - 0 * 1)"
    by simp
  from metric_cache_2D [OF para_geom2D d(1) ok d(2,3) e ip J w]
  have "ld para_invJ (ind4 3 4 (1 ^ 2) 0 2 0 0) = Some (1 / 4)
   \<and> ld para_invJ (ind4 3 4 (1 ^ 2) 1 2 0 0) = Some (- (1 / 4))
   \<and> ld para_invJ (ind4 3 4 (1 ^ 2) 2 2 0 0) = Some (1 / 2)"
    by (simp add: l)
  with para_geom2D ok J show ?thesis by (simp add: l)
qed

subsection \<open>Symmetry of the 2D local contribution\<close>

lemma k_range_sym: "k_begin i j = k_begin j i" "k_end p i j = k_end p j i"
  by (simp_all add: k_begin_def k_end_def max.commute min.commute min.left_commute)

lemma quad2D_sym:
  fixes val :: "'a::{zero,one,plus,uminus,times}"
  assumes m: "\<forall>x y :: 'a. x * y = y * x" and p: "\<forall>x y :: 'a. x + y = y + x"
  shows "quad2D order nq dimn invJ iel_ho ix iy jx jy k kx ky iqy iqx val
       = quad2D order nq dimn invJ iel_ho jx jy ix iy k kx ky iqy iqx val"
proof -
  note c = m [rule_format] p [rule_format]
  show ?thesis
    unfolding quad2D_def Let_def
    by (cases "rd (btab :: 'a list) ((ky - iy + 1) * 2 + iqy)";
        cases "rd (btab :: 'a list) ((kx - ix + 1) * 2 + iqx)";
        cases "rd (btab :: 'a list) ((ky - jy + 1) * 2 + iqy)";
        cases "rd (btab :: 'a list) ((kx - jx + 1) * 2 + iqx)")
       (simp_all add: c split del: if_split cong: if_cong)
qed

text \<open>
  C5. For every high-order element and every pair of tensor nodes the value the 2D
  assembler accumulates for the pair \<open>(i, j)\<close> is the one it accumulates for \<open>(j, i)\<close>:
  the same sub-cells and quadrature points are visited, and swapping the nodes swaps
  the gradient components \<open>(a, b)\<close> with \<open>(c, d)\<close>, which leaves
  \<open>a * c * M_xx + (b * c + a * d) * M_xy + b * d * M_yy\<close> unchanged. Of the arithmetic only
  the commutativity of \<open>+\<close> and \<open>*\<close> is used.
\<close>

theorem pair_val_symmetric:
  fixes invJ :: "'a::{zero,one,plus,uminus,times} option list"
  assumes "\<forall>x y :: 'a. x * y = y * x" and "\<forall>x y :: 'a. x + y = y + x"
  shows "pair_val order nq dimn invJ iel_ho ix iy jx jy
       = pair_val order nq dimn invJ iel_ho jx jy ix iy"
proof -
  have q: "quad2D order nq dimn invJ iel_ho ix iy jx jy k kx ky iqy iqx
         = quad2D order nq dimn invJ iel_ho jx jy ix iy k kx ky iqy iqx" for k kx ky iqy iqx
    by (rule ext) (rule quad2D_sym [OF assms])
  show ?thesis
    unfolding pair_val_def k_range_sym(1) [of iy jy] k_range_sym(2) [of order iy jy]
      k_range_sym(1) [of ix jx] k_range_sym(2) [of order ix jx] q ..
qed

lemma para_pair_val: "pair_val 1 4 2 para_invJ 0 0 0 1 1 = Some (1 / 2)"
  by (simp add: pair_val_def quad2D_def irange_def k_begin_def k_end_def btab_def rd_def ld_def
      ind4_def Let_def upto.simps para_invJ_def)

theorem pair_val_symmetric_witness:
  "(\<forall>x y :: real. x * y = y * x) \<and> (\<forall>x y :: real. x + y = y + x)
   \<and> pair_val 1 4 2 para_invJ 0 0 0 1 1 = Some (1 / 2)
   \<and> pair_val 1 4 2 para_invJ 0 1 1 0 0 = Some (1 / 2)"
proof -
  have c: "\<forall>x y :: real. x * y = y * x" "\<forall>x y :: real. x + y = y + x"
    by (simp_all add: mult.commute add.commute)
  from pair_val_symmetric [OF c, of 1 4 2 para_invJ 0 1 1 0 0] para_pair_val
  have "pair_val 1 4 2 para_invJ 0 1 1 0 0 = Some (1 / 2)" by simp
  with c para_pair_val show ?thesis by blast
qed

end
